theory Spec2Isabelle
  imports Complex_Main
begin

section \<open>Python values used by \<open>PRNet/utils/visualizer.py\<close>\<close>

text \<open>
  Strings are \<open>char list\<close>s, Python's unbounded integers are \<open>int\<close>.  A Python float is
  an IEEE double: a sign together with the exact (rational) magnitude of the double, or an
  infinity, or a NaN.  The sign is kept apart from the magnitude because \<open>-0.0\<close> prints
  as \<open>-0.000\<close>.
\<close>

type_synonym path = string

datatype pyfloat = Fin bool rat | Infty bool | NaN

datatype error = AttributeError | IndexError | ConvertError | OSError

definition newline :: string where
  "newline = [CHR 0x0A]"

subsection \<open>The \<open>%\<close> formatting operator\<close>

definition digit :: "nat \<Rightarrow> char" where
  "digit n = ''0123456789'' ! (n mod 10)"

fun show_nat :: "nat \<Rightarrow> string" where
  "show_nat n = (if n < 10 then [digit n] else show_nat (n div 10) @ [digit n])"

declare show_nat.simps [simp del]

text \<open>\<open>'%d' % i\<close>: the decimal digits, with a minus sign in front of a negative number.\<close>

definition fmt_d :: "int \<Rightarrow> string" where
  "fmt_d i = (if i < 0 then ''-'' else []) @ show_nat (nat \<bar>i\<bar>)"

text \<open>
  \<open>'%.3d' % i\<close>: the precision of an integer conversion is the minimum number of digits;
  shorter numbers are padded with zeros on the left, the sign comes first.
\<close>

definition zfill :: "nat \<Rightarrow> string \<Rightarrow> string" where
  "zfill k s = replicate (k - length s) CHR ''0'' @ s"

definition fmt_3d :: "int \<Rightarrow> string" where
  "fmt_3d i = (if i < 0 then ''-'' else []) @ zfill 3 (show_nat (nat \<bar>i\<bar>))"

text \<open>
  The spec writes the counters of a file name as \<open>{n:03d}\<close>: the number filled with zeros
  to a width of three characters, the sign, which comes first, counted in the width.
\<close>

definition fmt_03d :: "int \<Rightarrow> string" where
  "fmt_03d i =
     (if i < 0 then ''-'' @ zfill 2 (show_nat (nat \<bar>i\<bar>)) else zfill 3 (show_nat (nat \<bar>i\<bar>)))"

text \<open>
  \<open>'%.3f' % v\<close>: the exact value of the double, correctly rounded to three decimals,
  ties to even.
\<close>

definition round_half_even :: "rat \<Rightarrow> nat" where
  "round_half_even x =
     (let f = \<lfloor>x\<rfloor>; r = x - of_int f
      in nat (if r < 1 / 2 then f else if 1 / 2 < r then f + 1
              else if even f then f else f + 1))"

definition fmt_3f :: "pyfloat \<Rightarrow> string" where
  "fmt_3f v =
     (case v of
        NaN \<Rightarrow> ''nan''
      | Infty neg \<Rightarrow> (if neg then ''-'' else []) @ ''inf''
      | Fin neg m \<Rightarrow>
          (let n = round_half_even (\<bar>m\<bar> * 1000)
           in (if neg then ''-'' else []) @ show_nat (n div 1000) @ ''.'' @
              zfill 3 (show_nat (n mod 1000))))"

subsection \<open>\<open>ntpath.basename\<close>, \<open>os.path.splitext\<close>, \<open>os.path.join\<close>\<close>

text \<open>
  \<open>ntpath\<close> is the Windows flavour of \<open>os.path\<close>: both \<open>/\<close> and the backslash separate
  components, and a drive letter or UNC share in front of the path is split off first
  (\<open>splitdrive\<close>, as in CPython 3.11).  \<open>os.path\<close> itself is taken to be \<open>posixpath\<close>.
\<close>

definition bslash :: char where
  "bslash = CHR 0x5C"

definition is_sep :: "char \<Rightarrow> bool" where
  "is_sep c = (c = CHR ''/'' \<or> c = bslash)"

text \<open>\<open>normp.find(sep, start)\<close> on the path with \<open>/\<close> normalised to the backslash.\<close>

fun find_sep :: "string \<Rightarrow> nat \<Rightarrow> nat option" where
  "find_sep [] start = None"
| "find_sep (c # cs) start =
     (if start = 0 then (if is_sep c then Some 0 else map_option Suc (find_sep cs 0))
      else map_option Suc (find_sep cs (start - 1)))"

text \<open>
  \<open>normp[:8].upper()\<close> is compared with the prefix of an extended UNC path; of
  \<open>upper\<close> only its value on the letters of \<open>UNC\<close> matters.
\<close>

definition upper :: "char \<Rightarrow> char" where
  "upper c = (if c = CHR ''u'' then CHR ''U'' else if c = CHR ''n'' then CHR ''N''
              else if c = CHR ''c'' then CHR ''C'' else c)"

definition is_unc_prefix :: "string \<Rightarrow> bool" where
  "is_unc_prefix p =
     (length p \<ge> 8 \<and> is_sep (p ! 0) \<and> is_sep (p ! 1) \<and> p ! 2 = CHR ''?'' \<and> is_sep (p ! 3) \<and>
      upper (p ! 4) = CHR ''U'' \<and> upper (p ! 5) = CHR ''N'' \<and> upper (p ! 6) = CHR ''C'' \<and>
      is_sep (p ! 7))"

definition splitdrive :: "string \<Rightarrow> string \<times> string" where
  "splitdrive p =
     (if length p \<ge> 2 then
        (if is_sep (p ! 0) \<and> is_sep (p ! 1) then
           (let start = (if is_unc_prefix p then 8 else 2)
            in case find_sep p start of
                 None \<Rightarrow> (p, [])
               | Some index \<Rightarrow>
                   (case find_sep p (index + 1) of
                      None \<Rightarrow> (p, [])
                    | Some index2 \<Rightarrow> (take index2 p, drop index2 p)))
         else if p ! 1 = CHR '':'' then (take 2 p, drop 2 p)
         else ([], p))
      else ([], p))"

text \<open>
  \<open>ntpath.split\<close> walks \<open>i\<close> back from the end of the drive-less path until the character
  before it is a separator; the tail is \<open>p[i:]\<close>.
\<close>

fun last_sep_end :: "string \<Rightarrow> nat \<Rightarrow> nat" where
  "last_sep_end p 0 = 0"
| "last_sep_end p (Suc i) = (if is_sep (p ! i) then Suc i else last_sep_end p i)"

definition basename :: "string \<Rightarrow> string" where
  "basename p0 = (let p = snd (splitdrive p0); i = last_sep_end p (length p) in drop i p)"

text \<open>\<open>p.rfind(c)\<close>: the last index of \<open>c\<close>, or \<open>-1\<close>.\<close>

fun rfind_upto :: "char \<Rightarrow> string \<Rightarrow> nat \<Rightarrow> int" where
  "rfind_upto c p 0 = -1"
| "rfind_upto c p (Suc i) = (if p ! i = c then int i else rfind_upto c p i)"

definition rfind :: "char \<Rightarrow> string \<Rightarrow> int" where
  "rfind c p = rfind_upto c p (length p)"

text \<open>
  The loop of \<open>genericpath._splitext\<close> that skips leading dots, run over the slice
  \<open>p[filenameIndex:dotIndex]\<close>: it answers whether some character there is not a dot.
\<close>

fun skip_leading_dots :: "string \<Rightarrow> bool" where
  "skip_leading_dots [] = False"
| "skip_leading_dots (c # cs) = (if c \<noteq> CHR ''.'' then True else skip_leading_dots cs)"

definition splitext :: "string \<Rightarrow> string \<times> string" where
  "splitext p =
     (let sepIndex = rfind CHR ''/'' p; dotIndex = rfind CHR ''.'' p
      in if dotIndex > sepIndex \<and>
            skip_leading_dots (drop (nat (sepIndex + 1)) (take (nat dotIndex) p))
         then (take (nat dotIndex) p, drop (nat dotIndex) p)
         else (p, []))"

text \<open>\<open>posixpath.join\<close>: one step of its loop, and the loop.\<close>

definition join_step :: "path \<Rightarrow> string \<Rightarrow> path" where
  "join_step path b =
     (if b \<noteq> [] \<and> hd b = CHR ''/'' then b
      else if path = [] \<or> last path = CHR ''/'' then path @ b
      else path @ ''/'' @ b)"

definition os_path_join :: "path \<Rightarrow> string list \<Rightarrow> path" where
  "os_path_join a p = foldl join_step a p"

section \<open>The world outside the module\<close>

text \<open>
  The file system maps a path to the bytes stored there and knows which directories exist;
  standard output is the text printed so far.
\<close>

record world =
  files :: "path \<rightharpoonup> string"
  dirs :: "path set"
  stdout :: string

text \<open>
  The collaborators of the module.  \<open>utils.tensor2im\<close> returns the array and its colour mode or
  raises; it does no input or output.  What the PNG writer stores for an array
  (\<open>png_encode\<close>), which writes, opens and directory creations the operating system refuses,
  and the string \<open>time.strftime("%c")\<close> returns are left open.  Whether an operation is
  refused depends on its arguments, not on what was done before it.
\<close>

record ('i, 'a) env =
  tensor2im :: "'i \<Rightarrow> error + 'a \<times> string"
  png_encode :: "'a \<Rightarrow> string \<Rightarrow> string"
  save_fails :: "'a \<Rightarrow> path \<Rightarrow> string \<Rightarrow> bool"
  open_fails :: "path \<Rightarrow> bool"
  mkdir_fails :: "path \<Rightarrow> bool"
  strftime_c :: string

text \<open>
  Modelled from the spec: \<open>utils.save_image\<close> (\<open>utils.py\<close> is not among the sources).  The
  PNG writer \<open>write(array, path, colorMode)\<close> stores the image at the path, replacing what
  was there, or raises and leaves the file system as it was.
\<close>

definition save_image :: "('i, 'a) env \<Rightarrow> 'a \<Rightarrow> path \<Rightarrow> string \<Rightarrow> world \<Rightarrow> error + world" where
  "save_image u im p mode w =
     (if save_fails u im p mode then Inl OSError
      else Inr (w\<lparr>files := (files w)(p \<mapsto> png_encode u im mode)\<rparr>))"

text \<open>
  Modelled from the spec: \<open>utils.mkdirs\<close> creates the directory if absent and does not
  complain if it is there already.
\<close>

definition mkdirs :: "('i, 'a) env \<Rightarrow> path \<Rightarrow> world \<Rightarrow> error + world" where
  "mkdirs u p w =
     (if p \<in> dirs w then Inr w
      else if mkdir_fails u p then Inl OSError
      else Inr (w\<lparr>dirs := insert p (dirs w)\<rparr>))"

definition os_path_exists :: "world \<Rightarrow> path \<Rightarrow> bool" where
  "os_path_exists w p = (p \<in> dirs w \<or> files w p \<noteq> None)"

definition os_mkdir :: "('i, 'a) env \<Rightarrow> path \<Rightarrow> world \<Rightarrow> error + world" where
  "os_mkdir u p w =
     (if os_path_exists w p \<or> mkdir_fails u p then Inl OSError
      else Inr (w\<lparr>dirs := insert p (dirs w)\<rparr>))"

text \<open>
  \<open>with open(p, "a") as f: f.write(s)\<close>: the text goes after what the file holds; a missing
  file is created.
\<close>

definition append_file :: "('i, 'a) env \<Rightarrow> path \<Rightarrow> string \<Rightarrow> world \<Rightarrow> error + world" where
  "append_file u p s w =
     (if open_fails u p then Inl OSError
      else Inr (w\<lparr>files := (files w)(p \<mapsto> (case files w p of None \<Rightarrow> s | Some t \<Rightarrow> t @ s))\<rparr>))"

definition print :: "string \<Rightarrow> world \<Rightarrow> world" where
  "print s w = w\<lparr>stdout := stdout w @ s @ newline\<rparr>"

text \<open>
  A \<open>for\<close> statement whose body may raise: the state reached, and the exception that ended
  the loop if there was one.
\<close>

fun for_loop :: "('x \<Rightarrow> 's \<Rightarrow> error + 's) \<Rightarrow> 'x list \<Rightarrow> 's \<Rightarrow> 's \<times> error option" where
  "for_loop body [] s = (s, None)"
| "for_loop body (x # xs) s =
     (case body x s of Inl e \<Rightarrow> (s, Some e) | Inr s' \<Rightarrow> for_loop body xs s')"

text \<open>
  Modelled from the spec: the class \<open>html.HTML\<close> (\<open>html.py\<close> is not among the sources).  The
  index builder has an image directory and records the sections and image rows it is
  given, in order.
\<close>

datatype html_call =
  Header string
| Images "string list" "string list" "string list" int

record webpage =
  web_image_dir :: path
  calls :: "html_call list"

definition get_image_dir :: "webpage \<Rightarrow> path" where
  "get_image_dir wp = web_image_dir wp"

definition add_header :: "string \<Rightarrow> webpage \<Rightarrow> webpage" where
  "add_header text wp = wp\<lparr>calls := calls wp @ [Header text]\<rparr>"

section \<open>\<open>save_images\<close>\<close>

text \<open>
  An ordered dictionary is the list of its items in insertion order.  The argument
  \<open>image_path\<close> is indexed with \<open>[0]\<close>: of a list that is its first element, of a string its
  first character, and an empty one raises.
\<close>

datatype hint = PathStr string | PathList "string list"

fun index0 :: "hint \<Rightarrow> error + string" where
  "index0 (PathStr []) = Inl IndexError"
| "index0 (PathStr (c # cs)) = Inr [c]"
| "index0 (PathList []) = Inl IndexError"
| "index0 (PathList (p # ps)) = Inr p"

text \<open>
  The state of the loop: the world and the three lists \<open>ims\<close>, \<open>txts\<close>, \<open>links\<close>.
\<close>

definition save_images_body ::
  "('i, 'a) env \<Rightarrow> path \<Rightarrow> string \<Rightarrow> string \<times> 'i \<Rightarrow>
   world \<times> string list \<times> string list \<times> string list \<Rightarrow>
   error + world \<times> string list \<times> string list \<times> string list" where
  "save_images_body u image_dir name = (\<lambda>(label, im_data) (w, ims, txts, links).
     case tensor2im u im_data of
       Inl e \<Rightarrow> Inl e
     | Inr (im, mode) \<Rightarrow>
         (let image_name = name @ ''_'' @ label @ ''.png'';
              save_path = os_path_join image_dir [image_name]
          in case save_image u im save_path mode w of
               Inl e \<Rightarrow> Inl e
             | Inr w' \<Rightarrow> Inr (w', ims @ [image_name], txts @ [label], links @ [image_name])))"

text \<open>
  The result is the webpage and the world as the call leaves them, and the exception it
  raised, if any.  The lists built by the loop are local and are dropped at the end.
\<close>

definition save_images ::
  "('i, 'a) env \<Rightarrow> webpage option \<Rightarrow> (string \<times> 'i) list \<Rightarrow> hint \<Rightarrow> pyfloat \<Rightarrow> int \<Rightarrow> bool \<Rightarrow>
   world \<Rightarrow> (webpage option \<times> world) \<times> error option" where
  "save_images u webpage visuals image_path aspect_ratio width use_wandb w =
     (case webpage of
        None \<Rightarrow> ((None, w), Some AttributeError)
      | Some wp \<Rightarrow>
          (let image_dir = get_image_dir wp
           in case index0 image_path of
                Inl e \<Rightarrow> ((Some wp, w), Some e)
              | Inr p0 \<Rightarrow>
                  (let short_path = basename p0;
                       name = fst (splitext short_path);
                       wp' = add_header name wp;
                       ((w', ims, txts, links), r) =
                          for_loop (save_images_body u image_dir name) visuals (w, [], [], [])
                   in ((Some wp', w'), r))))"

section \<open>\<open>display_test_results\<close>\<close>

definition display_test_results_body ::
  "('i, 'a) env \<Rightarrow> path \<Rightarrow> int \<Rightarrow> string \<times> 'i \<Rightarrow> world \<Rightarrow> error + world" where
  "display_test_results_body u results_dir iter = (\<lambda>(label, image) w.
     case tensor2im u image of
       Inl e \<Rightarrow> Inl e
     | Inr (image_numpy, mode) \<Rightarrow>
         (let img_path = os_path_join results_dir [''iter'' @ fmt_3d iter @ ''_'' @ label @ ''.png'']
          in save_image u image_numpy img_path mode w))"

definition display_test_results ::
  "('i, 'a) env \<Rightarrow> path \<Rightarrow> (string \<times> 'i) list \<Rightarrow> int \<Rightarrow> world \<Rightarrow> world \<times> error option" where
  "display_test_results u results_dir visuals iter w =
     (case (if \<not> os_path_exists w results_dir then os_mkdir u results_dir w else Inr w) of
        Inl e \<Rightarrow> (w, Some e)
      | Inr w1 \<Rightarrow> for_loop (display_test_results_body u results_dir iter) visuals w1)"

section \<open>The class \<open>Visualizer\<close>\<close>

record options =
  opt_name :: string
  checkpoints_dir :: path

record visualizer =
  opt :: options
  name :: string
  saved :: bool
  img_dir :: path
  log_name :: path

definition header_line :: "string \<Rightarrow> string" where
  "header_line now =
     ''================ Training Loss ('' @ now @ '') ================'' @ newline"

text \<open>
  \<open>__init__\<close>: the world it leaves, and the new object or the exception.
\<close>

definition init :: "('i, 'a) env \<Rightarrow> options \<Rightarrow> world \<Rightarrow> world \<times> (error + visualizer)" where
  "init u opts w =
     (let img_dir = os_path_join (checkpoints_dir opts) [opt_name opts, ''images'']
      in case mkdirs u img_dir w of
           Inl e \<Rightarrow> (w, Inl e)
         | Inr w1 \<Rightarrow>
             (let log_name = os_path_join (checkpoints_dir opts) [opt_name opts, ''loss_log.txt''];
                  now = strftime_c u
              in case append_file u log_name (header_line now) w1 of
                   Inl e \<Rightarrow> (w1, Inl e)
                 | Inr w2 \<Rightarrow>
                     (w2, Inr \<lparr>opt = opts, name = opt_name opts, saved = False,
                               img_dir = img_dir, log_name = log_name\<rparr>)))"

definition reset :: "visualizer \<Rightarrow> visualizer" where
  "reset self = self\<lparr>saved := False\<rparr>"

definition display_current_results_body ::
  "('i, 'a) env \<Rightarrow> visualizer \<Rightarrow> int \<Rightarrow> int \<Rightarrow> string \<times> 'i \<Rightarrow> world \<Rightarrow> error + world" where
  "display_current_results_body u self epoch iter = (\<lambda>(label, image) w.
     case tensor2im u image of
       Inl e \<Rightarrow> Inl e
     | Inr (image_numpy, mode) \<Rightarrow>
         (let img_path = os_path_join (img_dir self)
                [''epoch'' @ fmt_3d epoch @ ''_iter'' @ fmt_3d iter @ ''_'' @ label @ ''.png'']
          in save_image u image_numpy img_path mode w))"

definition display_current_results ::
  "('i, 'a) env \<Rightarrow> (string \<times> 'i) list \<Rightarrow> int \<Rightarrow> int \<Rightarrow> bool \<Rightarrow> visualizer \<times> world \<Rightarrow>
   (visualizer \<times> world) \<times> error option" where
  "display_current_results u visuals epoch iter save_result = (\<lambda>(self, w).
     if save_result \<or> \<not> saved self then
       (let self' = self\<lparr>saved := True\<rparr>;
            (w', r) = for_loop (display_current_results_body u self' epoch iter) visuals w
        in ((self', w'), r))
     else ((self, w), None))"

definition loss_message :: "int \<Rightarrow> int \<Rightarrow> (string \<times> pyfloat) list \<Rightarrow> pyfloat \<Rightarrow> pyfloat \<Rightarrow> string" where
  "loss_message epoch iters losses t_comp t_data =
     fold (\<lambda>(k, v) message. message @ k @ '': '' @ fmt_3f v @ '' '') losses
       (''(epoch: '' @ fmt_d epoch @ '', iters: '' @ fmt_d iters @ '', time: '' @ fmt_3f t_comp @
        '', data: '' @ fmt_3f t_data @ '') '')"

definition print_current_losses ::
  "('i, 'a) env \<Rightarrow> int \<Rightarrow> int \<Rightarrow> (string \<times> pyfloat) list \<Rightarrow> pyfloat \<Rightarrow> pyfloat \<Rightarrow>
   visualizer \<times> world \<Rightarrow> (visualizer \<times> world) \<times> error option" where
  "print_current_losses u epoch iters losses t_comp t_data = (\<lambda>(self, w).
     let message = loss_message epoch iters losses t_comp t_data;
         w1 = print message w
     in case append_file u (log_name self) (message @ newline) w1 of
          Inl e \<Rightarrow> ((self, w1), Some e)
        | Inr w2 \<Rightarrow> ((self, w2), None))"

section \<open>Vocabulary of the properties\<close>

text \<open>
  What one item of a VisualSet comes to when the file for a label is \<open>pth label\<close>: the
  exception raised by the converter or the writer, or the path and the bytes stored there.
\<close>

definition item_result ::
  "('i, 'a) env \<Rightarrow> (string \<Rightarrow> path) \<Rightarrow> string \<times> 'i \<Rightarrow> error + path \<times> string" where
  "item_result u pth = (\<lambda>(label, image).
     case tensor2im u image of
       Inl e \<Rightarrow> Inl e
     | Inr (im, mode) \<Rightarrow>
         if save_fails u im (pth label) mode then Inl OSError
         else Inr (pth label, png_encode u im mode))"

text \<open>The items before the first one that raises, and the exception of that one.\<close>

fun good_prefix :: "('x \<Rightarrow> error + 'y) \<Rightarrow> 'x list \<Rightarrow> 'x list" where
  "good_prefix r [] = []"
| "good_prefix r (x # xs) = (case r x of Inl e \<Rightarrow> [] | Inr y \<Rightarrow> x # good_prefix r xs)"

fun first_error :: "('x \<Rightarrow> error + 'y) \<Rightarrow> 'x list \<Rightarrow> error option" where
  "first_error r [] = None"
| "first_error r (x # xs) = (case r x of Inl e \<Rightarrow> Some e | Inr y \<Rightarrow> first_error r xs)"

fun all_good :: "('x \<Rightarrow> error + 'y) \<Rightarrow> 'x list \<Rightarrow> bool" where
  "all_good r [] = True"
| "all_good r (x # xs) = (case r x of Inl e \<Rightarrow> False | Inr y \<Rightarrow> all_good r xs)"

text \<open>The file system after the items have been written one after the other.\<close>

fun written :: "('x \<Rightarrow> error + path \<times> string) \<Rightarrow> 'x list \<Rightarrow> (path \<rightharpoonup> string) \<Rightarrow> (path \<rightharpoonup> string)" where
  "written r [] f = f"
| "written r (x # xs) f =
     written r xs (case r x of Inl e \<Rightarrow> f | Inr (p, c) \<Rightarrow> f(p \<mapsto> c))"

text \<open>One step of a loop that converts and writes an item or raises.\<close>

definition write_item :: "('x \<Rightarrow> error + path \<times> string) \<Rightarrow> 'x \<Rightarrow> world \<Rightarrow> error + world" where
  "write_item r x w =
     (case r x of Inl e \<Rightarrow> Inl e | Inr (p, c) \<Rightarrow> Inr (w\<lparr>files := (files w)(p \<mapsto> c)\<rparr>))"

text \<open>
  The file names of the three save operations, and what the class invariant says about the
  two paths the constructor computes.
\<close>

definition epoch_file :: "int \<Rightarrow> int \<Rightarrow> string \<Rightarrow> string" where
  "epoch_file epoch iter label =
     ''epoch'' @ fmt_3d epoch @ ''_iter'' @ fmt_3d iter @ ''_'' @ label @ ''.png''"

definition iter_file :: "int \<Rightarrow> string \<Rightarrow> string" where
  "iter_file iter label = ''iter'' @ fmt_3d iter @ ''_'' @ label @ ''.png''"

definition sample_file :: "string \<Rightarrow> string \<Rightarrow> string" where
  "sample_file base label = base @ ''_'' @ label @ ''.png''"

definition constructed :: "visualizer \<Rightarrow> bool" where
  "constructed self =
     (img_dir self = os_path_join (checkpoints_dir (opt self)) [opt_name (opt self), ''images''] \<and>
      log_name self =
        os_path_join (checkpoints_dir (opt self)) [opt_name (opt self), ''loss_log.txt''])"

text \<open>
  A session of the logger: any sequence of its three methods.  A caller may catch an
  exception and go on, so a run continues from the state a raising call leaves.
\<close>

datatype 'i op =
  Reset
| Display "(string \<times> 'i) list" int int bool
| PrintLosses int int "(string \<times> pyfloat) list" pyfloat pyfloat

fun step :: "('i, 'a) env \<Rightarrow> 'i op \<Rightarrow> visualizer \<times> world \<Rightarrow> visualizer \<times> world" where
  "step u Reset s = (reset (fst s), snd s)"
| "step u (Display visuals epoch iter save_result) s =
     fst (display_current_results u visuals epoch iter save_result s)"
| "step u (PrintLosses epoch iters losses t_comp t_data) s =
     fst (print_current_losses u epoch iters losses t_comp t_data s)"

definition run :: "('i, 'a) env \<Rightarrow> 'i op list \<Rightarrow> visualizer \<times> world \<Rightarrow> visualizer \<times> world" where
  "run u ops s = fold (step u) ops s"

text \<open>The lines the \<open>print_current_losses\<close> calls of a session produce, in call order.\<close>

fun log_lines :: "'i op list \<Rightarrow> string" where
  "log_lines [] = []"
| "log_lines (PrintLosses epoch iters losses t_comp t_data # ops) =
     loss_message epoch iters losses t_comp t_data @ newline @ log_lines ops"
| "log_lines (Reset # ops) = log_lines ops"
| "log_lines (Display visuals epoch iter save_result # ops) = log_lines ops"

definition text_of :: "world \<Rightarrow> path \<Rightarrow> string" where
  "text_of w p = (case files w p of None \<Rightarrow> [] | Some t \<Rightarrow> t)"

text \<open>
  The doubles that the literals \<open>1.2345\<close>, \<open>0.5\<close>, \<open>0.100\<close> and \<open>0.020\<close> denote: the
  53-bit mantissa over the power of two of its exponent.
\<close>

definition double_1_2345 :: pyfloat where
  "double_1_2345 = Fin False (5559693739988877 / 2 ^ 52)"

definition double_0_5 :: pyfloat where
  "double_0_5 = Fin False (4503599627370496 / 2 ^ 53)"

definition double_0_100 :: pyfloat where
  "double_0_100 = Fin False (7205759403792794 / 2 ^ 56)"

definition double_0_020 :: pyfloat where
  "double_0_020 = Fin False (5764607523034235 / 2 ^ 58)"

text \<open>
  \<open>is_double_of x q\<close>: the double \<open>x\<close> is the one a decimal literal of value \<open>q\<close> denotes:
  a 53-bit mantissa scaled by a power of two, less than half a unit in the last place
  away from \<open>q\<close>, or equal to it.
\<close>

definition is_double_of :: "pyfloat \<Rightarrow> rat \<Rightarrow> nat \<Rightarrow> nat \<Rightarrow> bool" where
  "is_double_of x q m k =
     (x = Fin False (of_nat m / 2 ^ k) \<and> 2 ^ 52 \<le> m \<and> m < 2 ^ 53 \<and>
      (\<bar>of_nat m / 2 ^ k - q\<bar> < 1 / 2 ^ (k + 1) \<or> of_nat m / 2 ^ k = q))"

text \<open>A concrete environment, index builder, logger and empty world to run the code on.\<close>

definition env0 :: "(string, string) env" where
  "env0 = \<lparr>tensor2im = (\<lambda>i. if i = [] then Inl ConvertError else Inr (i, ''RGB'')),
           png_encode = (\<lambda>a mode. mode @ '':'' @ a),
           save_fails = (\<lambda>a p mode. False),
           open_fails = (\<lambda>p. False),
           mkdir_fails = (\<lambda>p. False),
           strftime_c = ''Tue Nov  3 17:28:00 2026''\<rparr>"

definition w0 :: world where
  "w0 = \<lparr>files = Map.empty, dirs = {}, stdout = []\<rparr>"

definition wp0 :: webpage where
  "wp0 = \<lparr>web_image_dir = ''web/images'', calls = []\<rparr>"

definition self0 :: visualizer where
  "self0 = \<lparr>opt = \<lparr>opt_name = ''exp'', checkpoints_dir = ''ck''\<rparr>, name = ''exp'', saved = False,
            img_dir = ''ck/exp/images'', log_name = ''ck/exp/loss_log.txt''\<rparr>"

section \<open>Loops that convert and write\<close>

lemma join_one:
  "f \<noteq> [] \<Longrightarrow> hd f \<noteq> CHR ''/'' \<Longrightarrow>
   os_path_join d [f] = (if d = [] \<or> last d = CHR ''/'' then d @ f else d @ ''/'' @ f)"
  by (simp add: os_path_join_def join_step_def)

lemma for_loop_written:
  "for_loop (write_item r) xs w =
     (w\<lparr>files := written r (good_prefix r xs) (files w)\<rparr>, first_error r xs)"
proof (induction xs arbitrary: w)
  case Nil
  show ?case by simp
next
  case (Cons x xs)
  show ?case
  proof (cases "r x")
    case (Inl e)
    then show ?thesis by (simp add: write_item_def)
  next
    case (Inr pc)
    obtain p c where pc: "pc = (p, c)" by (cases pc)
    have "write_item r x w = Inr (w\<lparr>files := (files w)(p \<mapsto> c)\<rparr>)"
      using Inr pc by (simp add: write_item_def)
    then show ?thesis using Inr pc Cons.IH [of "w\<lparr>files := (files w)(p \<mapsto> c)\<rparr>"]
      by (simp add: fun_upd_def)
  qed
qed

lemma display_current_results_body_item:
  "display_current_results_body u self epoch iter =
     write_item (item_result u (\<lambda>label. os_path_join (img_dir self) [epoch_file epoch iter label]))"
  by (intro ext) (simp add: display_current_results_body_def item_result_def save_image_def
      write_item_def epoch_file_def split: sum.splits prod.splits)

lemma display_test_results_body_item:
  "display_test_results_body u results_dir iter =
     write_item (item_result u (\<lambda>label. os_path_join results_dir [iter_file iter label]))"
  by (intro ext) (simp add: display_test_results_body_def item_result_def save_image_def
      write_item_def iter_file_def split: sum.splits prod.splits)

lemma save_images_loop:
  "for_loop (save_images_body u d base) xs (w, ims, txts, links) =
     (let r = item_result u (\<lambda>label. os_path_join d [sample_file base label]);
          good = good_prefix r xs
      in ((w\<lparr>files := written r good (files w)\<rparr>,
           ims @ map (\<lambda>x. sample_file base (fst x)) good,
           txts @ map fst good,
           links @ map (\<lambda>x. sample_file base (fst x)) good),
          first_error r xs))"
proof (induction xs arbitrary: w ims txts links)
  case Nil
  show ?case by simp
next
  case (Cons x xs)
  obtain label image where x: "x = (label, image)" by (cases x)
  let ?r = "item_result u (\<lambda>label. os_path_join d [sample_file base label])"
  show ?case
  proof (cases "?r x")
    case (Inl e)
    then have "save_images_body u d base x (w, ims, txts, links) = Inl e"
      by (auto simp: x save_images_body_def item_result_def save_image_def sample_file_def Let_def
          split: sum.splits prod.splits if_splits)
    then show ?thesis using Inl by simp
  next
    case (Inr pc)
    obtain p c where pc: "pc = (p, c)" by (cases pc)
    have "save_images_body u d base x (w, ims, txts, links) =
            Inr (w\<lparr>files := (files w)(p \<mapsto> c)\<rparr>, ims @ [sample_file base label],
                 txts @ [label], links @ [sample_file base label])"
      using Inr pc
      by (auto simp: x save_images_body_def item_result_def save_image_def sample_file_def Let_def
          split: sum.splits prod.splits if_splits)
    then show ?thesis
      using Inr pc x Cons.IH [of "w\<lparr>files := (files w)(p \<mapsto> c)\<rparr>"]
      by (simp add: fun_upd_def Let_def)
  qed
qed

section \<open>The index builder\<close>

text \<open>
  C1.  \<open>save_images\<close> is claimed to add a section header equal to the base name and then to
  record, for every item in insertion order, the file name, the label and the link in the
  index builder.  The code adds the header, and that is all the builder ever receives:
  the lists \<open>ims\<close>, \<open>txts\<close> and \<open>links\<close> are filled by the loop and dropped at the end of
  the function.  Whatever the VisualSet holds, and whether or not the loop raises, the
  builder's calls after \<open>save_images\<close> are its calls before followed by the one header.
\<close>

theorem save_images_only_adds_header:
  "fst (fst (save_images u (Some wp) visuals (PathList (p # ps)) aspect_ratio width use_wandb w)) =
     Some (wp\<lparr>calls := calls wp @ [Header (fst (splitext (basename p)))]\<rparr>)"
  by (simp add: save_images_def Let_def add_header_def split: prod.splits)

text \<open>
  C9.  Two calls of \<open>save_images\<close> that differ only in \<open>aspect_ratio\<close>, \<open>width\<close> or
  \<open>use_wandb\<close> do the same: the same webpage, the same world, the same exception or none.
\<close>

theorem save_images_ignores_options:
  "save_images u webpage visuals image_path aspect_ratio width use_wandb w =
   save_images u webpage visuals image_path aspect_ratio' width' use_wandb' w"
  by (simp add: save_images_def)

section \<open>The \<open>saved\<close> flag\<close>

text \<open>
  C5.  From every logger state and world, \<open>reset\<close> followed by \<open>display_current_results\<close>
  with \<open>save_result\<close> false leaves the same logger and world, and raises the same exception
  or none, as \<open>display_current_results\<close> with \<open>save_result\<close> true.  Whatever \<open>saved\<close> was
  before, that call makes the write pass: every item up to the end of the VisualSet, or to
  the first item that raises, is converted and written to its epoch file, and \<open>saved\<close> is
  true afterwards.  \<open>reset\<close> itself touches only the \<open>saved\<close> field of the logger and has
  no access to the world.
\<close>

theorem reset_forces_write_pass:
  "display_current_results u visuals epoch iter False (reset self, w) =
     display_current_results u visuals epoch iter True (self, w) \<and>
   display_current_results u visuals epoch iter False (reset self, w) =
     (let r = item_result u (\<lambda>label. os_path_join (img_dir self)
                 [''epoch'' @ fmt_3d epoch @ ''_iter'' @ fmt_3d iter @ ''_'' @ label @ ''.png''])
      in ((self\<lparr>saved := True\<rparr>, w\<lparr>files := written r (good_prefix r visuals) (files w)\<rparr>),
          first_error r visuals)) \<and>
   reset self = self\<lparr>saved := False\<rparr>"
  by (simp add: display_current_results_def reset_def display_current_results_body_item
      for_loop_written epoch_file_def Let_def)

theorem reset_forces_write_pass_witness:
  "display_current_results env0 [(''real'', ''pixels'')] 3 10 False
       (reset (self0\<lparr>saved := True\<rparr>), w0) =
     ((self0\<lparr>saved := True\<rparr>,
       w0\<lparr>files := [''ck/exp/images/epoch003_iter010_real.png'' \<mapsto> ''RGB:pixels'']\<rparr>), None) \<and>
   display_current_results env0 [(''real'', ''pixels'')] 3 10 True (self0\<lparr>saved := True\<rparr>, w0) =
     ((self0\<lparr>saved := True\<rparr>,
       w0\<lparr>files := [''ck/exp/images/epoch003_iter010_real.png'' \<mapsto> ''RGB:pixels'']\<rparr>), None) \<and>
   reset (self0\<lparr>saved := True\<rparr>) = self0"
proof -
  have f: "fmt_3d 3 = ''003''" "fmt_3d 10 = ''010''" by code_simp+
  note t = reset_forces_write_pass [of env0 "[(''real'', ''pixels'')]" 3 10
      "self0\<lparr>saved := True\<rparr>" w0]
  have b: "display_current_results env0 [(''real'', ''pixels'')] 3 10 False
       (reset (self0\<lparr>saved := True\<rparr>), w0) =
     ((self0\<lparr>saved := True\<rparr>,
       w0\<lparr>files := [''ck/exp/images/epoch003_iter010_real.png'' \<mapsto> ''RGB:pixels'']\<rparr>), None)"
    using t [THEN conjunct2, THEN conjunct1]
    by (simp add: f item_result_def env0_def self0_def w0_def os_path_join_def join_step_def
        Let_def)
  have a: "display_current_results env0 [(''real'', ''pixels'')] 3 10 True
       (self0\<lparr>saved := True\<rparr>, w0) =
     ((self0\<lparr>saved := True\<rparr>,
       w0\<lparr>files := [''ck/exp/images/epoch003_iter010_real.png'' \<mapsto> ''RGB:pixels'']\<rparr>), None)"
    using t [THEN conjunct1] b by simp
  have c: "reset (self0\<lparr>saved := True\<rparr>) = self0"
    by (simp add: reset_def self0_def)
  show ?thesis by (intro conjI b a c)
qed

section \<open>Paths that end in a file name\<close>

lemma last_join_step: "b \<noteq> [] \<Longrightarrow> last (join_step a b) = last b"
  by (simp add: join_step_def)

lemma last_join_one: "b \<noteq> [] \<Longrightarrow> last (os_path_join a [b]) = last b"
  by (simp add: os_path_join_def last_join_step)

lemma epoch_file_last:
  "epoch_file epoch iter label \<noteq> [] \<and> last (epoch_file epoch iter label) = CHR ''g''"
  by (simp add: epoch_file_def)

lemma item_result_path: "item_result u pth x = Inr (p, c) \<Longrightarrow> p = pth (fst x)"
  by (cases x) (auto simp: item_result_def split: sum.splits if_splits)

lemma written_other:
  "(\<And>x p c. r x = Inr (p, c) \<Longrightarrow> p \<noteq> q) \<Longrightarrow> written r xs f q = f q"
proof (induction xs arbitrary: f)
  case Nil
  show ?case by simp
next
  case (Cons x xs)
  show ?case
  proof (cases "r x")
    case (Inl e)
    then show ?thesis using Cons by simp
  next
    case (Inr pc)
    obtain p c where pc: "pc = (p, c)" by (cases pc)
    have "p \<noteq> q" using Cons.prems Inr pc by blast
    moreover have "written r xs (f(p \<mapsto> c)) q = (f(p \<mapsto> c)) q"
      by (rule Cons.IH) (rule Cons.prems)
    ultimately show ?thesis using Inr pc by simp
  qed
qed

section \<open>The loss line\<close>

lemma literal_doubles:
  "is_double_of double_1_2345 (12345 / 10000) 5559693739988877 52"
  "is_double_of double_0_5 (5 / 10) 4503599627370496 53"
  "is_double_of double_0_100 (100 / 1000) 7205759403792794 56"
  "is_double_of double_0_020 (20 / 1000) 5764607523034235 58"
  by (simp_all add: is_double_of_def double_1_2345_def double_0_5_def double_0_100_def
      double_0_020_def)

lemma fmt_examples:
  "fmt_3f double_1_2345 = ''1.234''"
  "fmt_3f double_0_5 = ''0.500''"
  "fmt_3f double_0_100 = ''0.100''"
  "fmt_3f double_0_020 = ''0.020''"
  "fmt_d 3 = ''3''"
  "fmt_d 10 = ''10''"
  by code_simp+

lemma example_message:
  "loss_message 3 10 [(''G'', double_1_2345), (''D'', double_0_5)] double_0_100 double_0_020 =
     ''(epoch: 3, iters: 10, time: 0.100, data: 0.020) G: 1.234 D: 0.500 ''"
  by (simp add: loss_message_def fmt_examples)

text \<open>
  C3.  For the LossSet \<open>{"G": 1.2345, "D": 0.5}\<close>, epoch 3, iters 10, times 0.100 and
  0.020 the line is claimed to end in \<open>G: 1.235 D: 0.500\<close>.  The double that the literal
  \<open>1.2345\<close> denotes (\<open>literal_doubles\<close>) lies below 1.2345, so \<open>%.3f\<close> rounds it down:
  the line the code builds is not the claimed one.
\<close>

theorem example_line_is_not_rounded_up:
  "loss_message 3 10 [(''G'', double_1_2345), (''D'', double_0_5)] double_0_100 double_0_020 \<noteq>
     ''(epoch: 3, iters: 10, time: 0.100, data: 0.020) G: 1.235 D: 0.500 ''"
  by (simp add: example_message)

text \<open>
  C3, as amended.  For these arguments \<open>print_current_losses\<close> builds the line
  \<open>(epoch: 3, iters: 10, time: 0.100, data: 0.020) G: 1.234 D: 0.500 \<close> (each value
  rounded to three decimals from the exact value of the double, a space after each pair),
  prints it followed by a newline, and appends the same line and newline to the log file,
  provided the log file can be opened.
\<close>

theorem print_current_losses_example:
  assumes "\<not> open_fails u (log_name self)"
  shows "print_current_losses u 3 10 [(''G'', double_1_2345), (''D'', double_0_5)]
           double_0_100 double_0_020 (self, w) =
         ((self,
           w\<lparr>stdout := stdout w @
                ''(epoch: 3, iters: 10, time: 0.100, data: 0.020) G: 1.234 D: 0.500 '' @ newline,
             files := (files w)(log_name self \<mapsto> text_of w (log_name self) @
                ''(epoch: 3, iters: 10, time: 0.100, data: 0.020) G: 1.234 D: 0.500 '' @ newline)\<rparr>),
          None)"
  using assms
  by (simp add: print_current_losses_def example_message append_file_def print_def text_of_def
      split: option.splits)

theorem print_current_losses_example_witness:
  "\<not> open_fails env0 (log_name self0) \<and>
   print_current_losses env0 3 10 [(''G'', double_1_2345), (''D'', double_0_5)]
           double_0_100 double_0_020 (self0, w0) =
     ((self0,
       \<lparr>files = [''ck/exp/loss_log.txt'' \<mapsto>
                  ''(epoch: 3, iters: 10, time: 0.100, data: 0.020) G: 1.234 D: 0.500 '' @ newline],
        dirs = {},
        stdout = ''(epoch: 3, iters: 10, time: 0.100, data: 0.020) G: 1.234 D: 0.500 '' @ newline\<rparr>),
      None)"
proof -
  have h: "\<not> open_fails env0 (log_name self0)" by (simp add: env0_def)
  show ?thesis
    using h print_current_losses_example [OF h, of w0]
    by (simp add: self0_def w0_def text_of_def)
qed

section \<open>The log file\<close>

lemma display_keeps_text:
  assumes "last q = CHR ''t''"
  shows "files (snd (fst (display_current_results u visuals epoch iter save_result (self, w)))) q =
           files w q"
proof -
  let ?pth = "\<lambda>label. os_path_join (img_dir self) [epoch_file epoch iter label]"
  have "p \<noteq> q" if "item_result u ?pth x = Inr (p, c)" for x p c
  proof -
    have "p = os_path_join (img_dir self) [epoch_file epoch iter (fst x)]"
      using item_result_path [OF that] by simp
    then have "last p = CHR ''g''"
      using epoch_file_last [of epoch iter "fst x"] by (simp add: last_join_one)
    then show ?thesis using assms by auto
  qed
  then have "written (item_result u ?pth) xs (files w) q = files w q" for xs
    by (rule written_other)
  then show ?thesis
    by (simp add: display_current_results_def display_current_results_body_item
        for_loop_written)
qed

lemma display_keeps_log_name:
  "log_name (fst (fst (display_current_results u visuals epoch iter save_result (self, w)))) =
     log_name self"
  by (simp add: display_current_results_def display_current_results_body_item for_loop_written)

lemma print_appends:
  assumes "\<not> open_fails u (log_name self)" "files w (log_name self) = Some t"
  shows "fst (print_current_losses u epoch iters losses t_comp t_data (self, w)) =
           (self, w\<lparr>stdout := stdout w @ loss_message epoch iters losses t_comp t_data @ newline,
                    files := (files w)(log_name self \<mapsto>
                       t @ loss_message epoch iters losses t_comp t_data @ newline)\<rparr>)"
  using assms by (simp add: print_current_losses_def append_file_def print_def Let_def)

lemma step_log:
  assumes "\<not> open_fails u L" "last L = CHR ''t''" "log_name (fst s) = L" "files (snd s) L = Some t"
  shows "log_name (fst (step u x s)) = L \<and> files (snd (step u x s)) L = Some (t @ log_lines [x])"
proof (cases x)
  case Reset
  then show ?thesis using assms by (simp add: reset_def)
next
  case (Display visuals epoch iter save_result)
  obtain self w where s: "s = (self, w)" by (cases s)
  show ?thesis
    using assms display_keeps_text [OF assms(2), of u visuals epoch iter save_result self w]
      display_keeps_log_name [of u visuals epoch iter save_result self w]
    by (simp add: Display s)
next
  case (PrintLosses epoch iters losses t_comp t_data)
  obtain self w where s: "s = (self, w)" by (cases s)
  have "\<not> open_fails u (log_name self)" "files w (log_name self) = Some t"
    using assms s by simp_all
  from print_appends [OF this, of epoch iters losses t_comp t_data]
  show ?thesis using assms s by (simp add: PrintLosses)
qed

lemma log_lines_Cons: "log_lines (x # ops) = log_lines [x] @ log_lines ops"
  by (cases x) simp_all

lemma run_log:
  assumes "\<not> open_fails u L" "last L = CHR ''t''"
  shows "log_name (fst s) = L \<Longrightarrow> files (snd s) L = Some t \<Longrightarrow>
     log_name (fst (run u ops s)) = L \<and> files (snd (run u ops s)) L = Some (t @ log_lines ops)"
proof (induction ops arbitrary: s t)
  case Nil
  then show ?case by (simp add: run_def)
next
  case (Cons x ops)
  have st: "log_name (fst (step u x s)) = L \<and>
      files (snd (step u x s)) L = Some (t @ log_lines [x])"
    using step_log [OF assms Cons.prems] .
  have "run u (x # ops) s = run u ops (step u x s)" by (simp add: run_def)
  then show ?case
    using Cons.IH [of "step u x s" "t @ log_lines [x]"] st log_lines_Cons [of x ops] by simp
qed

lemma init_log:
  assumes "init u opts w = (w1, Inr self)"
  shows "log_name self = os_path_join (checkpoints_dir opts) [opt_name opts, ''loss_log.txt'']"
    and "\<not> open_fails u (log_name self)"
    and "files w1 (log_name self) =
           Some (text_of w (log_name self) @ header_line (strftime_c u))"
  using assms
  by (auto simp: init_def Let_def mkdirs_def append_file_def text_of_def
      split: sum.splits if_splits option.splits)

text \<open>
  C6.  The log file is append-only.  Let the constructor succeed in a world \<open>w\<close>, and let
  any sequence of \<open>reset\<close>, \<open>display_current_results\<close> and \<open>print_current_losses\<close> calls
  follow, in any order, whether or not a call raises.  Then the log file holds what it
  held in \<open>w\<close> (nothing, if it did not exist), then the header line, then exactly the
  lines of the \<open>print_current_losses\<close> calls in call order, each with its newline.
  In particular, when the session starts without a log file, the file is the header
  followed by exactly those lines.
\<close>

theorem log_is_append_only:
  assumes "init u opts w = (w1, Inr self)"
  shows "files (snd (run u ops (self, w1))) (log_name self) =
           Some (text_of w (log_name self) @ header_line (strftime_c u) @ log_lines ops) \<and>
         (files w (log_name self) = None \<longrightarrow>
          files (snd (run u ops (self, w1))) (log_name self) =
            Some (header_line (strftime_c u) @ log_lines ops))"
proof -
  have "last (log_name self) = CHR ''t''"
    by (simp add: init_log(1) [OF assms] os_path_join_def last_join_step)
  from run_log [OF init_log(2) [OF assms] this, of "(self, w1)" _ ops] init_log(3) [OF assms]
  show ?thesis by (simp add: text_of_def)
qed

theorem log_is_append_only_witness:
  "init env0 \<lparr>opt_name = ''exp'', checkpoints_dir = ''ck''\<rparr> w0 =
     (\<lparr>files = [''ck/exp/loss_log.txt'' \<mapsto> header_line ''Tue Nov  3 17:28:00 2026''],
       dirs = {''ck/exp/images''}, stdout = []\<rparr>, Inr self0) \<and>
   files w0 (log_name self0) = None \<and>
   files (snd (run env0
       [PrintLosses 3 10 [(''G'', double_1_2345), (''D'', double_0_5)] double_0_100 double_0_020,
        Display [(''real'', ''pixels'')] 3 10 False,
        Reset,
        PrintLosses 3 10 [(''G'', double_1_2345), (''D'', double_0_5)] double_0_100 double_0_020]
       (self0, \<lparr>files = [''ck/exp/loss_log.txt'' \<mapsto> header_line ''Tue Nov  3 17:28:00 2026''],
                 dirs = {''ck/exp/images''}, stdout = []\<rparr>))) ''ck/exp/loss_log.txt'' =
     Some (header_line ''Tue Nov  3 17:28:00 2026'' @
           ''(epoch: 3, iters: 10, time: 0.100, data: 0.020) G: 1.234 D: 0.500 '' @ newline @
           ''(epoch: 3, iters: 10, time: 0.100, data: 0.020) G: 1.234 D: 0.500 '' @ newline)"
proof -
  have h: "init env0 \<lparr>opt_name = ''exp'', checkpoints_dir = ''ck''\<rparr> w0 =
     (\<lparr>files = [''ck/exp/loss_log.txt'' \<mapsto> header_line ''Tue Nov  3 17:28:00 2026''],
       dirs = {''ck/exp/images''}, stdout = []\<rparr>, Inr self0)"
    by (simp add: init_def env0_def w0_def self0_def mkdirs_def append_file_def os_path_join_def
        join_step_def Let_def)
  show ?thesis
    using h log_is_append_only [OF h,
      of "[PrintLosses 3 10 [(''G'', double_1_2345), (''D'', double_0_5)] double_0_100 double_0_020,
        Display [(''real'', ''pixels'')] 3 10 False,
        Reset,
        PrintLosses 3 10 [(''G'', double_1_2345), (''D'', double_0_5)] double_0_100 double_0_020]"]
    by (simp add: example_message text_of_def w0_def self0_def env0_def)
qed

section \<open>Where a write pass stops\<close>

lemma all_good_prefix: "all_good r xs \<Longrightarrow> good_prefix r xs = xs \<and> first_error r xs = None"
  by (induction xs) (auto split: sum.splits)

lemma first_error_None: "first_error r xs = None \<Longrightarrow> all_good r xs"
  by (induction xs) (auto split: sum.splits)

lemma failing_item:
  "all_good r pre \<Longrightarrow> r x = Inl e \<Longrightarrow>
   good_prefix r (pre @ x # post) = pre \<and> first_error r (pre @ x # post) = Some e"
  by (induction pre) (auto split: sum.splits)

lemma written_other_set:
  "(\<And>x p c. x \<in> set xs \<Longrightarrow> r x = Inr (p, c) \<Longrightarrow> p \<noteq> q) \<Longrightarrow> written r xs f q = f q"
proof (induction xs arbitrary: f)
  case Nil
  show ?case by simp
next
  case (Cons x xs)
  have rest: "written r xs g q = g q" for g
    by (rule Cons.IH) (use Cons.prems in auto)
  show ?case
  proof (cases "r x")
    case (Inl e)
    then show ?thesis using rest by simp
  next
    case (Inr pc)
    obtain p c where pc: "pc = (p, c)" by (cases pc)
    have "p \<noteq> q" using Cons.prems [of x p c] Inr pc by simp
    then show ?thesis using Inr pc rest [of "f(p \<mapsto> c)"] by simp
  qed
qed

lemma item_result_good:
  "item_result u pth (l, img) = Inr pc \<Longrightarrow>
   \<exists>im mode. tensor2im u img = Inr (im, mode) \<and> pc = (pth l, png_encode u im mode)"
  by (auto simp: item_result_def split: sum.splits if_splits)

lemma written_lookup:
  assumes inj: "\<And>l l'. pth l = pth l' \<Longrightarrow> l = l'"
  shows "all_good (item_result u pth) xs \<Longrightarrow> distinct (map fst xs) \<Longrightarrow> (l, img) \<in> set xs \<Longrightarrow>
     \<exists>im mode. tensor2im u img = Inr (im, mode) \<and>
        written (item_result u pth) xs f (pth l) = Some (png_encode u im mode)"
proof (induction xs arbitrary: f)
  case Nil
  then show ?case by simp
next
  case (Cons x xs)
  obtain l0 i0 where x: "x = (l0, i0)" by (cases x)
  obtain pc where pc: "item_result u pth (l0, i0) = Inr pc" and good: "all_good (item_result u pth) xs"
    using Cons.prems(1) x by (auto split: sum.splits)
  obtain im0 mode0 where conv: "tensor2im u i0 = Inr (im0, mode0)"
    and pc_eq: "pc = (pth l0, png_encode u im0 mode0)"
    using item_result_good [OF pc] by blast
  have dist: "distinct (map fst xs)" "l0 \<notin> fst ` set xs" using Cons.prems(2) x by auto
  let ?f = "f(pth l0 \<mapsto> png_encode u im0 mode0)"
  have step: "written (item_result u pth) (x # xs) f = written (item_result u pth) xs ?f"
    using pc pc_eq x by simp
  show ?case
  proof (cases "(l, img) = x")
    case True
    have "written (item_result u pth) xs ?f (pth l0) = ?f (pth l0)"
    proof (rule written_other_set)
      fix y p c
      assume y: "y \<in> set xs" and r: "item_result u pth y = Inr (p, c)"
      have "p = pth (fst y)" using item_result_path [OF r] .
      moreover have "fst y \<noteq> l0" using y dist(2) by auto
      ultimately show "p \<noteq> pth l0" using inj by auto
    qed
    then have "written (item_result u pth) (x # xs) f (pth l0) = Some (png_encode u im0 mode0)"
      unfolding step by simp
    then show ?thesis using True x conv by auto
  next
    case False
    then have "(l, img) \<in> set xs" using Cons.prems(3) by simp
    then show ?thesis unfolding step by (rule Cons.IH [OF good dist(1)])
  qed
qed

lemma written_dom:
  "all_good (item_result u pth) xs \<Longrightarrow>
   dom (written (item_result u pth) xs f) = dom f \<union> pth ` set (map fst xs)"
proof (induction xs arbitrary: f)
  case Nil
  show ?case by simp
next
  case (Cons x xs)
  obtain l0 i0 where x: "x = (l0, i0)" by (cases x)
  obtain pc where pc: "item_result u pth (l0, i0) = Inr pc" and good: "all_good (item_result u pth) xs"
    using Cons.prems(1) x by (auto split: sum.splits)
  obtain im0 mode0 where pc_eq: "pc = (pth l0, png_encode u im0 mode0)"
    using item_result_good [OF pc] by blast
  let ?f = "f(pth l0 \<mapsto> png_encode u im0 mode0)"
  have step: "written (item_result u pth) (x # xs) f = written (item_result u pth) xs ?f"
    using pc pc_eq x by simp
  have "dom (written (item_result u pth) xs ?f) = dom ?f \<union> pth ` set (map fst xs)"
    by (rule Cons.IH [OF good])
  moreover have "dom ?f = insert (pth l0) (dom f)" by simp
  ultimately show ?case unfolding step using x by auto
qed

lemma join_inj:
  assumes "\<And>l. f l \<noteq> [] \<and> hd (f l) \<noteq> CHR ''/''" "\<And>l l'. f l = f l' \<Longrightarrow> l = l'"
  shows "os_path_join d [f l] = os_path_join d [f l'] \<Longrightarrow> l = l'"
  using assms(2) [of l l'] assms(1) [of l] assms(1) [of l']
  by (simp add: join_one split: if_splits)

lemma epoch_path_inj:
  "os_path_join d [epoch_file epoch iter l] = os_path_join d [epoch_file epoch iter l'] \<Longrightarrow> l = l'"
  by (rule join_inj [where f = "epoch_file epoch iter"]) (simp_all add: epoch_file_def)

lemma iter_path_inj:
  "os_path_join d [iter_file iter l] = os_path_join d [iter_file iter l'] \<Longrightarrow> l = l'"
  by (rule join_inj [where f = "iter_file iter"]) (simp_all add: iter_file_def)

lemma display_current_results_eq:
  "display_current_results u visuals epoch iter save_result (self, w) =
     (if save_result \<or> \<not> saved self then
        (let r = item_result u (\<lambda>label. os_path_join (img_dir self) [epoch_file epoch iter label])
         in ((self\<lparr>saved := True\<rparr>, w\<lparr>files := written r (good_prefix r visuals) (files w)\<rparr>),
             first_error r visuals))
      else ((self, w), None))"
  by (simp add: display_current_results_def display_current_results_body_item for_loop_written
      Let_def)

lemma display_test_results_eq:
  "os_path_exists w d \<or> \<not> mkdir_fails u d \<Longrightarrow>
   display_test_results u d visuals iter w =
     (let r = item_result u (\<lambda>label. os_path_join d [iter_file iter label])
      in (w\<lparr>dirs := (if os_path_exists w d then dirs w else insert d (dirs w)),
            files := written r (good_prefix r visuals) (files w)\<rparr>,
          first_error r visuals))"
  by (auto simp: display_test_results_def display_test_results_body_item for_loop_written
      os_mkdir_def Let_def)

lemma save_images_eq:
  "save_images u (Some wp) visuals (PathList (p # ps)) aspect_ratio width use_wandb w =
     (let base = fst (splitext (basename p));
          r = item_result u (\<lambda>label. os_path_join (web_image_dir wp) [sample_file base label])
      in ((Some (wp\<lparr>calls := calls wp @ [Header base]\<rparr>),
           w\<lparr>files := written r (good_prefix r visuals) (files w)\<rparr>),
          first_error r visuals))"
  by (simp add: save_images_def save_images_loop get_image_dir_def add_header_def Let_def)

lemma constructed_img_dir:
  "constructed self \<Longrightarrow> img_dir self \<noteq> [] \<and> last (img_dir self) = CHR ''s''"
  by (simp add: constructed_def os_path_join_def join_step_def)

lemma epoch_path:
  assumes "constructed self"
  shows "os_path_join (img_dir self) [epoch_file epoch iter label] =
           img_dir self @ ''/'' @ epoch_file epoch iter label"
proof -
  have "epoch_file epoch iter label \<noteq> []" "hd (epoch_file epoch iter label) \<noteq> CHR ''/''"
    by (simp_all add: epoch_file_def)
  from join_one [OF this] constructed_img_dir [OF assms] show ?thesis by simp
qed

lemma fmt_3d_examples: "fmt_3d 3 = ''003''" "fmt_3d 10 = ''010''" "fmt_3d 7 = ''007''"
  by code_simp+

lemma constructed_self0: "constructed self0" "constructed (self0\<lparr>saved := True\<rparr>)"
  by (simp_all add: constructed_def self0_def os_path_join_def join_step_def)

section \<open>\<open>display_current_results\<close>\<close>

lemma fmt_3d_nonneg: "0 \<le> i \<Longrightarrow> fmt_3d i = fmt_03d i"
  by (simp add: fmt_3d_def fmt_03d_def)

lemma fmt_03d_examples: "fmt_03d 3 = ''003''" "fmt_03d 10 = ''010''" "fmt_03d (-5) = ''-05''"
  by code_simp+

lemma fmt_3d_negative_example: "fmt_3d (-5) = ''-005''"
  by code_simp

text \<open>
  C4.  Every written image is claimed to go to
  \<open>{img_dir}/epoch{epoch:03d}_iter{iter:03d}_{label}.png\<close>.  The code formats the counters
  with \<open>%.3d\<close>, which gives a negative number three digits after its sign, where
  \<open>{:03d}\<close> counts the sign in the width: at epoch \<open>-5\<close> the image is written to
  \<open>epoch-005_iter010_real.png\<close> and nothing is written to the claimed path.
\<close>

theorem negative_epoch_is_not_03d:
  "files (snd (fst (display_current_results env0 [(''real'', ''pixels'')] (-5) 10 True (self0, w0))))
     (img_dir self0 @ ''/'' @ ''epoch'' @ fmt_03d (-5) @ ''_iter'' @ fmt_03d 10 @ ''_'' @ ''real'' @
      ''.png'') = None \<and>
   files (snd (fst (display_current_results env0 [(''real'', ''pixels'')] (-5) 10 True (self0, w0))))
     ''ck/exp/images/epoch-005_iter010_real.png'' = Some ''RGB:pixels''"
  by (simp add: display_current_results_eq item_result_def env0_def self0_def w0_def
      epoch_file_def fmt_3d_examples fmt_3d_negative_example fmt_03d_examples os_path_join_def
      join_step_def)

text \<open>
  C4, as amended.  \<open>display_current_results\<close> on a logger built by the constructor.  If
  \<open>save_result\<close> is false and \<open>saved\<close> is true the call changes neither the logger nor the
  world and raises nothing.  Otherwise it makes one write pass: each item is converted and
  written to \<open>{img_dir}/epoch{E}_iter{I}_{label}.png\<close>, where \<open>E\<close> and \<open>I\<close> are the epoch
  and the iteration as \<open>%.3d\<close> prints them, up to the end of the VisualSet (\<open>good_prefix\<close>
  is the whole VisualSet when no item raises) or to the first item that raises; and
  \<open>saved\<close> is true afterwards.  For an epoch and an iteration that are not negative the
  path is \<open>{img_dir}/epoch{epoch:03d}_iter{iter:03d}_{label}.png\<close>.
\<close>

theorem display_current_results_gate:
  assumes "constructed self"
  shows "display_current_results u visuals epoch iter save_result (self, w) =
     (if save_result \<or> \<not> saved self then
        (let r = item_result u (\<lambda>label. img_dir self @ ''/'' @ ''epoch'' @ fmt_3d epoch @
                                  ''_iter'' @ fmt_3d iter @ ''_'' @ label @ ''.png'')
         in ((self\<lparr>saved := True\<rparr>, w\<lparr>files := written r (good_prefix r visuals) (files w)\<rparr>),
             first_error r visuals))
      else ((self, w), None)) \<and>
    (0 \<le> epoch \<and> 0 \<le> iter \<longrightarrow>
     display_current_results u visuals epoch iter save_result (self, w) =
       (if save_result \<or> \<not> saved self then
          (let r = item_result u (\<lambda>label. img_dir self @ ''/'' @ ''epoch'' @ fmt_03d epoch @
                                    ''_iter'' @ fmt_03d iter @ ''_'' @ label @ ''.png'')
           in ((self\<lparr>saved := True\<rparr>, w\<lparr>files := written r (good_prefix r visuals) (files w)\<rparr>),
               first_error r visuals))
        else ((self, w), None)))"
proof -
  have "(\<lambda>label. os_path_join (img_dir self) [epoch_file epoch iter label]) =
        (\<lambda>label. img_dir self @ ''/'' @ ''epoch'' @ fmt_3d epoch @
                                  ''_iter'' @ fmt_3d iter @ ''_'' @ label @ ''.png'')"
    using epoch_path [OF assms] by (simp add: epoch_file_def)
  then have general: "display_current_results u visuals epoch iter save_result (self, w) =
     (if save_result \<or> \<not> saved self then
        (let r = item_result u (\<lambda>label. img_dir self @ ''/'' @ ''epoch'' @ fmt_3d epoch @
                                  ''_iter'' @ fmt_3d iter @ ''_'' @ label @ ''.png'')
         in ((self\<lparr>saved := True\<rparr>, w\<lparr>files := written r (good_prefix r visuals) (files w)\<rparr>),
             first_error r visuals))
      else ((self, w), None))"
    by (simp add: display_current_results_eq)
  show ?thesis
  proof (intro conjI impI)
    show "display_current_results u visuals epoch iter save_result (self, w) =
     (if save_result \<or> \<not> saved self then
        (let r = item_result u (\<lambda>label. img_dir self @ ''/'' @ ''epoch'' @ fmt_3d epoch @
                                  ''_iter'' @ fmt_3d iter @ ''_'' @ label @ ''.png'')
         in ((self\<lparr>saved := True\<rparr>, w\<lparr>files := written r (good_prefix r visuals) (files w)\<rparr>),
             first_error r visuals))
      else ((self, w), None))"
      by (rule general)
  next
    assume "0 \<le> epoch \<and> 0 \<le> iter"
    then have "fmt_3d epoch = fmt_03d epoch" "fmt_3d iter = fmt_03d iter"
      by (simp_all add: fmt_3d_nonneg)
    then show "display_current_results u visuals epoch iter save_result (self, w) =
       (if save_result \<or> \<not> saved self then
          (let r = item_result u (\<lambda>label. img_dir self @ ''/'' @ ''epoch'' @ fmt_03d epoch @
                                    ''_iter'' @ fmt_03d iter @ ''_'' @ label @ ''.png'')
           in ((self\<lparr>saved := True\<rparr>, w\<lparr>files := written r (good_prefix r visuals) (files w)\<rparr>),
               first_error r visuals))
        else ((self, w), None))"
      using general by simp
  qed
qed

theorem display_current_results_gate_witness:
  "constructed self0 \<and> (0::int) \<le> 3 \<and> (0::int) \<le> 10 \<and>
   display_current_results env0 [(''real'', ''pixels'')] 3 10 False (self0, w0) =
     ((self0\<lparr>saved := True\<rparr>,
       w0\<lparr>files := [''ck/exp/images/epoch003_iter010_real.png'' \<mapsto> ''RGB:pixels'']\<rparr>), None) \<and>
   display_current_results env0 [(''real'', ''pixels'')] 3 10 False (self0\<lparr>saved := True\<rparr>, w0) =
     ((self0\<lparr>saved := True\<rparr>, w0), None)"
proof -
  note a = display_current_results_gate [OF constructed_self0(1),
      of env0 "[(''real'', ''pixels'')]" 3 10 False w0, THEN conjunct2, rule_format]
  note b = display_current_results_gate [OF constructed_self0(2),
      of env0 "[(''real'', ''pixels'')]" 3 10 False w0, THEN conjunct2, rule_format]
  have h: "(0::int) \<le> 3 \<and> (0::int) \<le> 10" by simp
  show ?thesis
    using constructed_self0 a [OF h] b [OF h]
    by (simp add: fmt_03d_examples item_result_def env0_def self0_def w0_def)
qed

text \<open>
  C10.  When a write pass of \<open>display_current_results\<close> raises at some item, the call
  leaves \<open>saved\<close> true and the images of the items before it on disk; a later call with
  \<open>save_result\<close> false, whatever its VisualSet, does nothing, so the images that were not
  written are not written then either.
\<close>

theorem failed_display_is_not_retried:
  assumes "save_result \<or> \<not> saved self"
    and "all_good (item_result u (\<lambda>label. os_path_join (img_dir self) [epoch_file epoch iter label])) pre"
    and "item_result u (\<lambda>label. os_path_join (img_dir self) [epoch_file epoch iter label]) x = Inl e"
    and "distinct (map fst pre)"
  shows "\<exists>w'. display_current_results u (pre @ x # post) epoch iter save_result (self, w) =
                 ((self\<lparr>saved := True\<rparr>, w'), Some e) \<and>
              (\<forall>(l, img) \<in> set pre. \<exists>im mode. tensor2im u img = Inr (im, mode) \<and>
                  files w' (os_path_join (img_dir self) [epoch_file epoch iter l]) =
                    Some (png_encode u im mode)) \<and>
              display_current_results u visuals' epoch' iter' False (self\<lparr>saved := True\<rparr>, w') =
                 ((self\<lparr>saved := True\<rparr>, w'), None)"
proof -
  let ?pth = "\<lambda>label. os_path_join (img_dir self) [epoch_file epoch iter label]"
  let ?r = "item_result u ?pth"
  let ?w = "w\<lparr>files := written ?r pre (files w)\<rparr>"
  have "display_current_results u (pre @ x # post) epoch iter save_result (self, w) =
          ((self\<lparr>saved := True\<rparr>, ?w), Some e)"
    using assms(1) failing_item [OF assms(2,3), of post]
    by (simp add: display_current_results_eq)
  moreover have "\<exists>im mode. tensor2im u img = Inr (im, mode) \<and>
      files ?w (?pth l) = Some (png_encode u im mode)" if "(l, img) \<in> set pre" for l img
    using written_lookup [of ?pth u pre l img "files w", OF epoch_path_inj assms(2,4) that]
    by simp
  moreover have "display_current_results u visuals' epoch' iter' False (self\<lparr>saved := True\<rparr>, ?w) =
      ((self\<lparr>saved := True\<rparr>, ?w), None)"
    by (simp add: display_current_results_eq)
  ultimately show ?thesis by blast
qed

theorem failed_display_is_not_retried_witness:
  "(False \<or> \<not> saved self0) \<and>
   display_current_results env0 ([(''a'', ''pixels'')] @ (''b'', []) # []) 3 10 False (self0, w0) =
     ((self0\<lparr>saved := True\<rparr>,
       w0\<lparr>files := [''ck/exp/images/epoch003_iter010_a.png'' \<mapsto> ''RGB:pixels'']\<rparr>),
      Some ConvertError) \<and>
   display_current_results env0 [(''a'', ''pixels''), (''b'', ''more'')] 3 10 False
       (self0\<lparr>saved := True\<rparr>,
        w0\<lparr>files := [''ck/exp/images/epoch003_iter010_a.png'' \<mapsto> ''RGB:pixels'']\<rparr>) =
     ((self0\<lparr>saved := True\<rparr>,
       w0\<lparr>files := [''ck/exp/images/epoch003_iter010_a.png'' \<mapsto> ''RGB:pixels'']\<rparr>), None)"
proof -
  let ?r = "item_result env0 (\<lambda>label. os_path_join (img_dir self0) [epoch_file 3 10 label])"
  have h1: "False \<or> \<not> saved self0" by (simp add: self0_def)
  have h2: "all_good ?r [(''a'', ''pixels'')]" by (simp add: item_result_def env0_def)
  have h3: "?r (''b'', []) = Inl ConvertError" by (simp add: item_result_def env0_def)
  have h4: "distinct (map fst [(''a'', ''pixels'')])" by simp
  from failed_display_is_not_retried [OF h1 h2 h3 h4,
      of "[]" w0 "[(''a'', ''pixels''), (''b'', ''more'')]" 3 10]
  obtain w' where
    a: "display_current_results env0 ([(''a'', ''pixels'')] @ (''b'', []) # []) 3 10 False (self0, w0) =
          ((self0\<lparr>saved := True\<rparr>, w'), Some ConvertError)"
    and b: "display_current_results env0 [(''a'', ''pixels''), (''b'', ''more'')] 3 10 False
              (self0\<lparr>saved := True\<rparr>, w') = ((self0\<lparr>saved := True\<rparr>, w'), None)"
    by blast
  have "display_current_results env0 ([(''a'', ''pixels'')] @ (''b'', []) # []) 3 10 False (self0, w0) =
     ((self0\<lparr>saved := True\<rparr>,
       w0\<lparr>files := [''ck/exp/images/epoch003_iter010_a.png'' \<mapsto> ''RGB:pixels'']\<rparr>),
      Some ConvertError)"
    by (simp add: display_current_results_eq item_result_def env0_def self0_def w0_def
        epoch_file_def fmt_3d_examples os_path_join_def join_step_def)
  with a have "w' = w0\<lparr>files := [''ck/exp/images/epoch003_iter010_a.png'' \<mapsto> ''RGB:pixels'']\<rparr>"
    by simp
  with a b h1 show ?thesis by simp
qed

section \<open>Failure in the middle of a VisualSet\<close>

lemma example_base: "fst (splitext (basename ''dir/abc.png'')) = ''abc''"
  by code_simp

text \<open>
  C2.  A save operation is claimed to write nothing when it fails.  The loops write the
  images one by one and nothing undoes a write: with a VisualSet whose second image cannot
  be converted, \<open>display_test_results\<close> raises, and the file of the first image, which was
  not there before, is.
\<close>

theorem failed_save_leaves_earlier_images:
  "snd (display_test_results env0 ''out'' [(''a'', ''pixels''), (''b'', [])] 7 w0) =
     Some ConvertError \<and>
   files w0 ''out/iter007_a.png'' = None \<and>
   files (fst (display_test_results env0 ''out'' [(''a'', ''pixels''), (''b'', [])] 7 w0))
     ''out/iter007_a.png'' = Some ''RGB:pixels''"
  by (simp add: display_test_results_def display_test_results_body_def save_image_def
      os_path_exists_def os_mkdir_def env0_def w0_def fmt_3d_examples os_path_join_def
      join_step_def)

text \<open>
  C2, as amended.  The three save operations fail fast and do not roll back: when the
  conversion or the write of an item raises (and the items before it did not), the call
  raises that exception at once; the images of the items before it, in insertion order,
  have been written and stay; the failing item and those after it are not written.
\<close>

theorem save_operations_fail_fast:
  "(let r = item_result u (\<lambda>label. os_path_join (img_dir self) [epoch_file epoch iter label])
    in (save_result \<or> \<not> saved self) \<and> all_good r pre \<and> r x = Inl e \<longrightarrow>
       snd (display_current_results u (pre @ x # post) epoch iter save_result (self, w)) = Some e \<and>
       files (snd (fst (display_current_results u (pre @ x # post) epoch iter save_result (self, w)))) =
         written r pre (files w)) \<and>
   (let r = item_result u (\<lambda>label. os_path_join d [iter_file iter label])
    in (os_path_exists w d \<or> \<not> mkdir_fails u d) \<and> all_good r pre \<and> r x = Inl e \<longrightarrow>
       snd (display_test_results u d (pre @ x # post) iter w) = Some e \<and>
       files (fst (display_test_results u d (pre @ x # post) iter w)) = written r pre (files w)) \<and>
   (let base = fst (splitext (basename p));
        r = item_result u (\<lambda>label. os_path_join (web_image_dir wp) [sample_file base label])
    in all_good r pre \<and> r x = Inl e \<longrightarrow>
       snd (save_images u (Some wp) (pre @ x # post) (PathList (p # ps)) aspect_ratio width
              use_wandb w) = Some e \<and>
       files (snd (fst (save_images u (Some wp) (pre @ x # post) (PathList (p # ps)) aspect_ratio
              width use_wandb w))) = written r pre (files w))"
proof -
  have "snd (display_current_results u (pre @ x # post) epoch iter save_result (self, w)) = Some e \<and>
       files (snd (fst (display_current_results u (pre @ x # post) epoch iter save_result (self, w)))) =
         written r pre (files w)"
    if "r = item_result u (\<lambda>label. os_path_join (img_dir self) [epoch_file epoch iter label])"
      "save_result \<or> \<not> saved self" "all_good r pre" "r x = Inl e" for r
    using that(2) failing_item [OF that(3,4), of post]
    by (simp add: display_current_results_eq that(1) [symmetric])
  moreover have "snd (display_test_results u d (pre @ x # post) iter w) = Some e \<and>
       files (fst (display_test_results u d (pre @ x # post) iter w)) = written r pre (files w)"
    if "r = item_result u (\<lambda>label. os_path_join d [iter_file iter label])"
      "os_path_exists w d \<or> \<not> mkdir_fails u d" "all_good r pre" "r x = Inl e" for r
    using failing_item [OF that(3,4), of post]
    by (simp add: display_test_results_eq [OF that(2)] that(1) [symmetric])
  moreover have "snd (save_images u (Some wp) (pre @ x # post) (PathList (p # ps)) aspect_ratio width
              use_wandb w) = Some e \<and>
       files (snd (fst (save_images u (Some wp) (pre @ x # post) (PathList (p # ps)) aspect_ratio
              width use_wandb w))) = written r pre (files w)"
    if "r = item_result u (\<lambda>label. os_path_join (web_image_dir wp)
              [sample_file (fst (splitext (basename p))) label])"
      "all_good r pre" "r x = Inl e" for r
    using failing_item [OF that(2,3), of post]
    by (simp add: save_images_eq that(1) [symmetric] Let_def)
  ultimately show ?thesis by (simp add: Let_def)
qed

theorem save_operations_fail_fast_witness:
  "snd (display_current_results env0 ([(''a'', ''pixels'')] @ (''b'', []) # []) 3 10 True (self0, w0)) =
     Some ConvertError \<and>
   files (snd (fst (display_current_results env0 ([(''a'', ''pixels'')] @ (''b'', []) # []) 3 10 True
     (self0, w0)))) = [''ck/exp/images/epoch003_iter010_a.png'' \<mapsto> ''RGB:pixels''] \<and>
   snd (display_test_results env0 ''out'' ([(''a'', ''pixels'')] @ (''b'', []) # []) 10 w0) =
     Some ConvertError \<and>
   files (fst (display_test_results env0 ''out'' ([(''a'', ''pixels'')] @ (''b'', []) # []) 10 w0)) =
     [''out/iter010_a.png'' \<mapsto> ''RGB:pixels''] \<and>
   snd (save_images env0 (Some wp0) ([(''a'', ''pixels'')] @ (''b'', []) # [])
     (PathList [''dir/abc.png'']) (Fin False 1) 512 False w0) = Some ConvertError \<and>
   files (snd (fst (save_images env0 (Some wp0) ([(''a'', ''pixels'')] @ (''b'', []) # [])
     (PathList [''dir/abc.png'']) (Fin False 1) 512 False w0))) =
     [''web/images/abc_a.png'' \<mapsto> ''RGB:pixels'']"
  using save_operations_fail_fast [where u = env0 and self = self0 and epoch = 3 and iter = 10
      and save_result = True and pre = "[(''a'', ''pixels'')]" and x = "(''b'', [])"
      and e = ConvertError and post = "[]" and w = w0 and d = "''out''" and p = "''dir/abc.png''"
      and wp = wp0 and ps = "[]" and aspect_ratio = "Fin False 1" and width = 512
      and use_wandb = False]
  by (simp add: Let_def item_result_def env0_def self0_def w0_def wp0_def epoch_file_def
      iter_file_def sample_file_def example_base fmt_3d_examples os_path_join_def join_step_def
      os_path_exists_def)

section \<open>Saving the same labels again\<close>

lemma overwrite:
  assumes inj: "\<And>l l'. pth l = pth l' \<Longrightarrow> l = l'"
    and good: "all_good (item_result u pth) v1" "all_good (item_result u pth) v2"
    and labels: "map fst v1 = map fst v2" "distinct (map fst v2)"
  shows "dom (written (item_result u pth) v2 (written (item_result u pth) v1 f)) =
           dom (written (item_result u pth) v1 f) \<and>
         (\<forall>(l, img) \<in> set v2. \<exists>im mode. tensor2im u img = Inr (im, mode) \<and>
            written (item_result u pth) v2 (written (item_result u pth) v1 f) (pth l) =
              Some (png_encode u im mode))"
proof -
  have "dom (written (item_result u pth) v2 (written (item_result u pth) v1 f)) =
          dom (written (item_result u pth) v1 f)"
    using labels(1) by (auto simp add: written_dom [OF good(1)] written_dom [OF good(2)])
  moreover have "\<exists>im mode. tensor2im u img = Inr (im, mode) \<and>
      written (item_result u pth) v2 (written (item_result u pth) v1 f) (pth l) =
        Some (png_encode u im mode)" if "(l, img) \<in> set v2" for l img
    by (rule written_lookup [OF inj good(2) labels(2) that])
  ultimately show ?thesis by blast
qed

lemma display_test_results_success:
  assumes "display_test_results u d visuals iter w = (w1, None)"
  shows "all_good (item_result u (\<lambda>label. os_path_join d [iter_file iter label])) visuals \<and>
         files w1 =
           written (item_result u (\<lambda>label. os_path_join d [iter_file iter label])) visuals (files w)"
proof -
  let ?r = "item_result u (\<lambda>label. os_path_join d [iter_file iter label])"
  have ok: "os_path_exists w d \<or> \<not> mkdir_fails u d"
    using assms by (auto simp: display_test_results_def os_mkdir_def split: if_splits)
  from assms have "first_error ?r visuals = None"
    and w1: "files w1 = written ?r (good_prefix ?r visuals) (files w)"
    by (auto simp: display_test_results_eq [OF ok] Let_def)
  then show ?thesis
    using all_good_prefix [OF first_error_None, of ?r visuals]
      first_error_None [of ?r visuals] by simp
qed

lemma display_current_results_success:
  assumes "display_current_results u visuals epoch iter True (self, w) = ((self1, w1), None)"
  shows "all_good (item_result u (\<lambda>label. os_path_join (img_dir self) [epoch_file epoch iter label]))
           visuals \<and>
         files w1 =
           written (item_result u (\<lambda>label. os_path_join (img_dir self) [epoch_file epoch iter label]))
             visuals (files w) \<and>
         img_dir self1 = img_dir self"
proof -
  let ?r = "item_result u (\<lambda>label. os_path_join (img_dir self) [epoch_file epoch iter label])"
  from assms have "first_error ?r visuals = None"
    and "files w1 = written ?r (good_prefix ?r visuals) (files w)"
    and "img_dir self1 = img_dir self"
    by (auto simp: display_current_results_eq Let_def)
  then show ?thesis
    using all_good_prefix [OF first_error_None, of ?r visuals]
      first_error_None [of ?r visuals] by simp
qed

text \<open>
  C7.  The path of an image file is a function of the directory and of (iteration, label),
  or of (epoch, iteration, label), and of nothing else, so saving the same labels again
  replaces the files and adds none.  Let two calls of \<open>display_test_results\<close> with the same
  directory and iteration number, on VisualSets with the same labels, succeed one after the
  other: the second call leaves exactly the files the first one left, and the file of every
  label holds the image of the second call.  The same holds for two write passes of
  \<open>display_current_results\<close> with the same epoch and iteration number.
\<close>

theorem repeated_save_overwrites:
  assumes "map fst v1 = map fst v2" and "distinct (map fst v2)"
  shows "(display_test_results u d v1 iter w = (w1, None) \<and>
          display_test_results u d v2 iter w1 = (w2, None) \<longrightarrow>
            dom (files w2) = dom (files w1) \<and>
            (\<forall>(l, img) \<in> set v2. \<exists>im mode. tensor2im u img = Inr (im, mode) \<and>
               files w2 (os_path_join d [''iter'' @ fmt_3d iter @ ''_'' @ l @ ''.png'']) =
                 Some (png_encode u im mode))) \<and>
         (display_current_results u v1 epoch iter True (self, w) = ((self1, w1), None) \<and>
          display_current_results u v2 epoch iter True (self1, w1) = ((self2, w2), None) \<longrightarrow>
            dom (files w2) = dom (files w1) \<and>
            (\<forall>(l, img) \<in> set v2. \<exists>im mode. tensor2im u img = Inr (im, mode) \<and>
               files w2 (os_path_join (img_dir self)
                   [''epoch'' @ fmt_3d epoch @ ''_iter'' @ fmt_3d iter @ ''_'' @ l @ ''.png'']) =
                 Some (png_encode u im mode)))"
proof (intro conjI impI)
  assume a: "display_test_results u d v1 iter w = (w1, None) \<and>
          display_test_results u d v2 iter w1 = (w2, None)"
  let ?pth = "\<lambda>label. os_path_join d [iter_file iter label]"
  note s1 = display_test_results_success [OF a [THEN conjunct1]]
  note s2 = display_test_results_success [OF a [THEN conjunct2]]
  have "dom (written (item_result u ?pth) v2 (written (item_result u ?pth) v1 (files w))) =
           dom (written (item_result u ?pth) v1 (files w)) \<and>
        (\<forall>(l, img) \<in> set v2. \<exists>im mode. tensor2im u img = Inr (im, mode) \<and>
            written (item_result u ?pth) v2 (written (item_result u ?pth) v1 (files w)) (?pth l) =
              Some (png_encode u im mode))"
    by (rule overwrite [OF iter_path_inj s1 [THEN conjunct1] s2 [THEN conjunct1] assms])
  then show "dom (files w2) = dom (files w1)"
    and "\<forall>(l, img) \<in> set v2. \<exists>im mode. tensor2im u img = Inr (im, mode) \<and>
               files w2 (os_path_join d [''iter'' @ fmt_3d iter @ ''_'' @ l @ ''.png'']) =
                 Some (png_encode u im mode)"
    using s1 s2 by (simp_all add: iter_file_def)
next
  assume a: "display_current_results u v1 epoch iter True (self, w) = ((self1, w1), None) \<and>
          display_current_results u v2 epoch iter True (self1, w1) = ((self2, w2), None)"
  let ?pth = "\<lambda>label. os_path_join (img_dir self) [epoch_file epoch iter label]"
  note s1 = display_current_results_success [OF a [THEN conjunct1]]
  note s2 = display_current_results_success [OF a [THEN conjunct2]]
  have g2: "all_good (item_result u ?pth) v2"
    and f2: "files w2 = written (item_result u ?pth) v2 (files w1)"
    using s1 s2 by simp_all
  have "dom (written (item_result u ?pth) v2 (written (item_result u ?pth) v1 (files w))) =
           dom (written (item_result u ?pth) v1 (files w)) \<and>
        (\<forall>(l, img) \<in> set v2. \<exists>im mode. tensor2im u img = Inr (im, mode) \<and>
            written (item_result u ?pth) v2 (written (item_result u ?pth) v1 (files w)) (?pth l) =
              Some (png_encode u im mode))"
    by (rule overwrite [OF epoch_path_inj s1 [THEN conjunct1] g2 assms])
  then show "dom (files w2) = dom (files w1)"
    and "\<forall>(l, img) \<in> set v2. \<exists>im mode. tensor2im u img = Inr (im, mode) \<and>
               files w2 (os_path_join (img_dir self)
                   [''epoch'' @ fmt_3d epoch @ ''_iter'' @ fmt_3d iter @ ''_'' @ l @ ''.png'']) =
                 Some (png_encode u im mode)"
    using s1 f2 by (simp_all add: epoch_file_def)
qed

theorem repeated_save_overwrites_witness:
  "map fst [(''a'', ''first'')] = map fst [(''a'', ''second'')] \<and>
   distinct (map fst [(''a'', ''second'')]) \<and>
   display_test_results env0 ''out'' [(''a'', ''first'')] 7 w0 =
     (\<lparr>files = [''out/iter007_a.png'' \<mapsto> ''RGB:first''], dirs = {''out''}, stdout = []\<rparr>, None) \<and>
   display_test_results env0 ''out'' [(''a'', ''second'')] 7
       \<lparr>files = [''out/iter007_a.png'' \<mapsto> ''RGB:first''], dirs = {''out''}, stdout = []\<rparr> =
     (\<lparr>files = [''out/iter007_a.png'' \<mapsto> ''RGB:second''], dirs = {''out''}, stdout = []\<rparr>, None) \<and>
   dom [''out/iter007_a.png'' \<mapsto> ''RGB:second''] = dom [''out/iter007_a.png'' \<mapsto> ''RGB:first''] \<and>
   display_current_results env0 [(''a'', ''first'')] 3 7 True (self0, w0) =
     ((self0\<lparr>saved := True\<rparr>,
       \<lparr>files = [''ck/exp/images/epoch003_iter007_a.png'' \<mapsto> ''RGB:first''], dirs = {},
        stdout = []\<rparr>), None) \<and>
   display_current_results env0 [(''a'', ''second'')] 3 7 True
       (self0\<lparr>saved := True\<rparr>,
        \<lparr>files = [''ck/exp/images/epoch003_iter007_a.png'' \<mapsto> ''RGB:first''], dirs = {},
         stdout = []\<rparr>) =
     ((self0\<lparr>saved := True\<rparr>,
       \<lparr>files = [''ck/exp/images/epoch003_iter007_a.png'' \<mapsto> ''RGB:second''], dirs = {},
        stdout = []\<rparr>), None) \<and>
   dom [''ck/exp/images/epoch003_iter007_a.png'' \<mapsto> ''RGB:second''] =
     dom [''ck/exp/images/epoch003_iter007_a.png'' \<mapsto> ''RGB:first'']"
proof -
  let ?W1 = "\<lparr>files = [''out/iter007_a.png'' \<mapsto> ''RGB:first''], dirs = {''out''}, stdout = []\<rparr>"
  let ?W2 = "\<lparr>files = [''out/iter007_a.png'' \<mapsto> ''RGB:second''], dirs = {''out''}, stdout = []\<rparr>"
  let ?V1 = "\<lparr>files = [''ck/exp/images/epoch003_iter007_a.png'' \<mapsto> ''RGB:first''], dirs = {},
        stdout = []\<rparr>"
  let ?V2 = "\<lparr>files = [''ck/exp/images/epoch003_iter007_a.png'' \<mapsto> ''RGB:second''], dirs = {},
        stdout = []\<rparr>"
  have h1: "map fst [(''a'', ''first'')] = map fst [(''a'', ''second'')]" by simp
  have h2: "distinct (map fst [(''a'', ''second'')])" by simp
  have d1: "display_test_results env0 ''out'' [(''a'', ''first'')] 7 w0 = (?W1, None)"
    by (simp add: display_test_results_def display_test_results_body_def save_image_def
        os_path_exists_def os_mkdir_def env0_def w0_def fmt_3d_examples os_path_join_def
        join_step_def)
  have d2: "display_test_results env0 ''out'' [(''a'', ''second'')] 7 ?W1 = (?W2, None)"
    by (simp add: display_test_results_def display_test_results_body_def save_image_def
        os_path_exists_def os_mkdir_def env0_def fmt_3d_examples os_path_join_def
        join_step_def)
  have e1: "display_current_results env0 [(''a'', ''first'')] 3 7 True (self0, w0) =
      ((self0\<lparr>saved := True\<rparr>, ?V1), None)"
    by (simp add: display_current_results_eq item_result_def env0_def self0_def w0_def
        epoch_file_def fmt_3d_examples os_path_join_def join_step_def)
  have e2: "display_current_results env0 [(''a'', ''second'')] 3 7 True
      (self0\<lparr>saved := True\<rparr>, ?V1) = ((self0\<lparr>saved := True\<rparr>, ?V2), None)"
    by (simp add: display_current_results_eq item_result_def env0_def self0_def
        epoch_file_def fmt_3d_examples os_path_join_def join_step_def)
  have "dom (files ?W2) = dom (files ?W1)"
    using repeated_save_overwrites [OF h1 h2, where u = env0 and d = "''out''" and iter = 7
        and w = w0 and ?w1.0 = ?W1 and ?w2.0 = ?W2] d1 d2 by blast
  moreover have "dom (files ?V2) = dom (files ?V1)"
    using repeated_save_overwrites [OF h1 h2, where u = env0 and epoch = 3 and iter = 7
        and self = self0 and ?self1.0 = "self0\<lparr>saved := True\<rparr>"
        and ?self2.0 = "self0\<lparr>saved := True\<rparr>"
        and w = w0 and ?w1.0 = ?V1 and ?w2.0 = ?V2] e1 e2 by blast
  ultimately show ?thesis using h1 h2 d1 d2 e1 e2 by simp
qed

section \<open>The base name of \<open>save_images\<close>\<close>

lemma splitdrive_snd: "\<exists>k. snd (splitdrive p) = drop k p"
proof -
  have a: "\<exists>k. [] = drop k p" by (rule exI [of _ "length p"]) simp
  have b: "\<exists>k. p = drop k p" by (rule exI [of _ 0]) simp
  have c: "\<exists>k. drop i p = drop k p" for i by blast
  show ?thesis
    using a b c by (simp add: splitdrive_def Let_def split: option.splits)
qed

lemma basename_suffix: "\<exists>dir. p = dir @ basename p"
proof -
  obtain k where k: "snd (splitdrive p) = drop k p" using splitdrive_snd by blast
  have "basename p = drop (k + last_sep_end (drop k p) (length (drop k p))) p"
    by (simp add: basename_def Let_def k add.commute)
  then have "p = take (k + last_sep_end (drop k p) (length (drop k p))) p @ basename p"
    by simp
  then show ?thesis by blast
qed

lemma last_sep_end_prop:
  "last_sep_end q n \<le> n \<and> (\<forall>j. last_sep_end q n \<le> j \<and> j < n \<longrightarrow> \<not> is_sep (q ! j))"
proof (induction n)
  case 0
  show ?case by simp
next
  case (Suc n)
  show ?case
  proof (cases "is_sep (q ! n)")
    case True
    then show ?thesis by auto
  next
    case False
    have "\<not> is_sep (q ! j)" if "last_sep_end q n \<le> j" "j < Suc n" for j
      using that Suc False by (cases "j = n") auto
    then show ?thesis using Suc False by auto
  qed
qed

lemma basename_no_sep: "filter is_sep (basename p) = []"
proof -
  let ?q = "snd (splitdrive p)"
  let ?i = "last_sep_end ?q (length ?q)"
  have "\<not> is_sep c" if "c \<in> set (drop ?i ?q)" for c
  proof -
    from that obtain j where "j < length (drop ?i ?q)" "c = drop ?i ?q ! j"
      by (auto simp: in_set_conv_nth)
    then have "c = ?q ! (?i + j)" "?i + j < length ?q" by auto
    then show ?thesis using last_sep_end_prop [of ?q "length ?q"] by auto
  qed
  then show ?thesis by (auto simp: basename_def Let_def filter_empty_conv)
qed

lemma rfind_upto_prop:
  "rfind_upto c p n = -1 \<or>
   (\<exists>i. rfind_upto c p n = int i \<and> i < n \<and> p ! i = c \<and> (\<forall>j. i < j \<and> j < n \<longrightarrow> p ! j \<noteq> c))"
proof (induction n)
  case 0
  show ?case by simp
next
  case (Suc n)
  show ?case
  proof (cases "p ! n = c")
    case True
    then show ?thesis by auto
  next
    case False
    from Suc show ?thesis
    proof
      assume "rfind_upto c p n = -1"
      then show ?thesis using False by simp
    next
      assume "\<exists>i. rfind_upto c p n = int i \<and> i < n \<and> p ! i = c \<and>
                 (\<forall>j. i < j \<and> j < n \<longrightarrow> p ! j \<noteq> c)"
      then obtain i where i: "rfind_upto c p n = int i" "i < n" "p ! i = c"
        "\<forall>j. i < j \<and> j < n \<longrightarrow> p ! j \<noteq> c" by blast
      have "p ! j \<noteq> c" if "i < j" "j < Suc n" for j
        using that i(4) False by (cases "j = n") auto
      then show ?thesis using i False by auto
    qed
  qed
qed

lemma splitext_append: "fst (splitext b) @ snd (splitext b) = b"
  by (simp add: splitext_def Let_def)

lemma splitext_ext:
  "snd (splitext b) = [] \<or>
   (hd (snd (splitext b)) = CHR ''.'' \<and> CHR ''.'' \<notin> set (tl (snd (splitext b))))"
proof (cases "rfind CHR ''.'' b > rfind CHR ''/'' b \<and>
    skip_leading_dots (drop (nat (rfind CHR ''/'' b + 1)) (take (nat (rfind CHR ''.'' b)) b))")
  case False
  then show ?thesis by (auto simp: splitext_def Let_def)
next
  case True
  have "rfind CHR ''/'' b \<ge> -1"
    using rfind_upto_prop [of "CHR ''/''" b "length b"] by (auto simp: rfind_def)
  then have "rfind CHR ''.'' b \<noteq> -1" using True by auto
  then obtain i where i: "rfind CHR ''.'' b = int i" "i < length b" "b ! i = CHR ''.''"
    "\<forall>j. i < j \<and> j < length b \<longrightarrow> b ! j \<noteq> CHR ''.''"
    using rfind_upto_prop [of "CHR ''.''" b "length b"] by (auto simp: rfind_def)
  have ext: "snd (splitext b) = drop i b" using True i(1) by (simp add: splitext_def Let_def)
  have "hd (drop i b) = CHR ''.''" using i(2,3) by (simp add: hd_drop_conv_nth)
  moreover have "CHR ''.'' \<notin> set (tl (drop i b))"
  proof
    assume "CHR ''.'' \<in> set (tl (drop i b))"
    then have "CHR ''.'' \<in> set (drop (Suc i) b)" by (simp add: drop_Suc tl_drop)
    then obtain j where "j < length (drop (Suc i) b)" "drop (Suc i) b ! j = CHR ''.''"
      by (auto simp: in_set_conv_nth)
    then have "b ! (Suc i + j) = CHR ''.''" "Suc i + j < length b" by auto
    then show False using i(4) by auto
  qed
  ultimately show ?thesis using ext by simp
qed

lemma base_no_slash:
  "sample_file (fst (splitext (basename p))) label \<noteq> [] \<and>
   hd (sample_file (fst (splitext (basename p))) label) \<noteq> CHR ''/''"
proof -
  let ?base = "fst (splitext (basename p))"
  have "filter is_sep (?base @ snd (splitext (basename p))) = []"
    by (simp only: splitext_append basename_no_sep)
  then have "\<forall>c \<in> set ?base. \<not> is_sep c" by (auto simp: filter_empty_conv)
  then have "?base \<noteq> [] \<Longrightarrow> hd ?base \<noteq> CHR ''/''"
    using hd_in_set [of ?base] by (auto simp: is_sep_def)
  then show ?thesis by (cases ?base) (auto simp: sample_file_def)
qed

lemma splitdrive_append: "fst (splitdrive p) @ snd (splitdrive p) = p"
  by (simp add: splitdrive_def Let_def split: option.splits)

lemma last_sep_end_before:
  "last_sep_end q n = 0 \<or> is_sep (q ! (last_sep_end q n - 1))"
  by (induction n) auto

lemma basename_front:
  "\<exists>front. snd (splitdrive p) = front @ basename p \<and> (front = [] \<or> is_sep (last front))"
proof -
  let ?q = "snd (splitdrive p)"
  let ?i = "last_sep_end ?q (length ?q)"
  have le: "?i \<le> length ?q" using last_sep_end_prop [of ?q "length ?q"] by simp
  have "take ?i ?q = [] \<or> is_sep (last (take ?i ?q))"
  proof (cases "?i = 0")
    case True
    then show ?thesis by simp
  next
    case False
    then have "is_sep (?q ! (?i - 1))" using last_sep_end_before [of ?q "length ?q"] by simp
    moreover have "take ?i ?q \<noteq> []" using le False by auto
    then have "last (take ?i ?q) = ?q ! (?i - 1)"
      using le False by (simp add: last_conv_nth)
    ultimately show ?thesis by simp
  qed
  moreover have "?q = take ?i ?q @ basename p" by (simp add: basename_def Let_def)
  ultimately show ?thesis by blast
qed

lemma rfind_upto_none: "rfind_upto c p n = -1 \<Longrightarrow> j < n \<Longrightarrow> p ! j \<noteq> c"
proof (induction n)
  case 0
  then show ?case by simp
next
  case (Suc n)
  then show ?case by (cases "j = n") (auto split: if_splits)
qed

lemma rfind_absent: "c \<notin> set p \<Longrightarrow> rfind c p = -1"
  using rfind_upto_prop [of c p "length p"] by (auto simp: rfind_def)

lemma rfind_none: "rfind c p = -1 \<Longrightarrow> c \<notin> set p"
  using rfind_upto_none [of c p "length p"] by (auto simp: rfind_def in_set_conv_nth)

lemma skip_leading_dots_iff: "skip_leading_dots s \<longleftrightarrow> filter (\<lambda>c. c \<noteq> CHR ''.'') s \<noteq> []"
  by (induction s) auto

lemma splitext_pinned:
  assumes "CHR ''/'' \<notin> set b"
  shows "if snd (splitext b) = [] then CHR ''.'' \<notin> set (dropWhile (\<lambda>c. c = CHR ''.'') (fst (splitext b)))
         else hd (snd (splitext b)) = CHR ''.'' \<and> CHR ''.'' \<notin> set (tl (snd (splitext b))) \<and>
              filter (\<lambda>c. c \<noteq> CHR ''.'') (fst (splitext b)) \<noteq> []"
proof -
  have sep: "rfind CHR ''/'' b = -1" using assms by (rule rfind_absent)
  show ?thesis
  proof (cases "rfind CHR ''.'' b = -1")
    case True
    then have "CHR ''.'' \<notin> set b" by (rule rfind_none)
    then have "CHR ''.'' \<notin> set (dropWhile (\<lambda>c. c = CHR ''.'') b)"
      using set_dropWhileD by fastforce
    then show ?thesis using True sep by (simp add: splitext_def Let_def)
  next
    case False
    then obtain i where i: "rfind CHR ''.'' b = int i" "i < length b" "b ! i = CHR ''.''"
      "\<forall>j. i < j \<and> j < length b \<longrightarrow> b ! j \<noteq> CHR ''.''"
      using rfind_upto_prop [of "CHR ''.''" b "length b"] by (auto simp: rfind_def)
    show ?thesis
    proof (cases "skip_leading_dots (take i b)")
      case True
      then have split: "splitext b = (take i b, drop i b)"
        using sep i(1) by (simp add: splitext_def Let_def)
      have "drop i b \<noteq> []" using i(2) by simp
      moreover have "filter (\<lambda>c. c \<noteq> CHR ''.'') (take i b) \<noteq> []"
        using True by (simp add: skip_leading_dots_iff)
      ultimately show ?thesis using splitext_ext [of b] split by auto
    next
      case nodots: False
      then have split: "splitext b = (b, [])"
        using sep i(1) by (simp add: splitext_def Let_def)
      have "\<forall>c \<in> set (take i b). c = CHR ''.''"
        using nodots by (auto simp: skip_leading_dots_iff filter_empty_conv)
      moreover have "take (Suc i) b = take i b @ [CHR ''.'']"
        using i(2,3) by (simp add: take_Suc_conv_app_nth)
      ultimately have all: "\<forall>c \<in> set (take (Suc i) b). c = CHR ''.''" by auto
      have "CHR ''.'' \<notin> set (drop (Suc i) b)"
      proof
        assume "CHR ''.'' \<in> set (drop (Suc i) b)"
        then obtain j where "j < length (drop (Suc i) b)" "drop (Suc i) b ! j = CHR ''.''"
          by (auto simp: in_set_conv_nth)
        then have "b ! (Suc i + j) = CHR ''.''" "Suc i + j < length b" by auto
        then show False using i(4) by auto
      qed
      moreover have "dropWhile (\<lambda>c. c = CHR ''.'') b =
          dropWhile (\<lambda>c. c = CHR ''.'') (drop (Suc i) b)"
        using dropWhile_append2 [of "take (Suc i) b" "\<lambda>c. c = CHR ''.''" "drop (Suc i) b"] all
        by simp
      ultimately have "CHR ''.'' \<notin> set (dropWhile (\<lambda>c. c = CHR ''.'') b)"
        using set_dropWhileD by fastforce
      then show ?thesis using split by simp
    qed
  qed
qed

lemma basename_no_slash: "CHR ''/'' \<notin> set (basename p)"
  using basename_no_sep [of p] by (auto simp: filter_empty_conv is_sep_def)

lemma example_first_character: "fst (splitext (basename ''d'')) = ''d''"
  by code_simp

text \<open>
  C8.  The hint is a path or a list of paths, and the base name is the hint path without
  its directory and extension; the docstring of \<open>save_images\<close> declares \<open>image_path\<close> a
  string.  The code takes \<open>image_path[0]\<close>: of a list of paths that is the first path, but
  of a path given as a string it is the first character.  With the hint \<open>'dir/abc.png'\<close>
  the image of label \<open>real\<close> goes to \<open>d_real.png\<close>, and no \<open>abc_real.png\<close> is written.
\<close>

theorem string_hint_uses_first_character:
  "files (snd (fst (save_images env0 (Some wp0) [(''real'', ''pixels'')] (PathStr ''dir/abc.png'')
      (Fin False 1) 512 False w0))) ''web/images/abc_real.png'' = None \<and>
   files (snd (fst (save_images env0 (Some wp0) [(''real'', ''pixels'')] (PathStr ''dir/abc.png'')
      (Fin False 1) 512 False w0))) ''web/images/d_real.png'' = Some ''RGB:pixels''"
  by (simp add: save_images_def save_images_body_def save_image_def get_image_dir_def
      example_first_character env0_def w0_def wp0_def os_path_join_def join_step_def Let_def)

text \<open>
  A hint that is a non-empty list of paths is treated as the property says.
  \<open>save_images\<close> takes the first path \<open>p\<close> and splits it as
  \<open>drive @ front @ base @ ext\<close>: \<open>front\<close> is empty or ends in a separator and \<open>base @ ext\<close>
  contains none, so \<open>front\<close> is the whole directory part; \<open>ext\<close> starts at the last dot of
  the base name, unless only dots come before that dot, and then \<open>ext\<close> is empty.  Each
  item of the VisualSet, up to the first that raises, is converted by \<open>tensor2im\<close> and
  written to \<open>{base}_{label}.png\<close> in the image directory of the webpage.
\<close>

theorem save_images_writes_base_label_files:
  "(let base = fst (splitext (basename p));
        ext = snd (splitext (basename p));
        d = web_image_dir wp;
        r = item_result u (\<lambda>label. (if d = [] \<or> last d = CHR ''/'' then d else d @ ''/'') @
                               base @ ''_'' @ label @ ''.png'')
    in snd (save_images u (Some wp) visuals (PathList (p # ps)) aspect_ratio width use_wandb w) =
         first_error r visuals \<and>
       files (snd (fst (save_images u (Some wp) visuals (PathList (p # ps)) aspect_ratio width
                          use_wandb w))) = written r (good_prefix r visuals) (files w) \<and>
       (\<exists>front. p = fst (splitdrive p) @ front @ base @ ext \<and>
                (front = [] \<or> is_sep (last front))) \<and>
       filter is_sep (base @ ext) = [] \<and>
       (if ext = [] then CHR ''.'' \<notin> set (dropWhile (\<lambda>c. c = CHR ''.'') base)
        else hd ext = CHR ''.'' \<and> CHR ''.'' \<notin> set (tl ext) \<and>
             filter (\<lambda>c. c \<noteq> CHR ''.'') base \<noteq> []))"
proof -
  let ?base = "fst (splitext (basename p))"
  let ?d = "web_image_dir wp"
  have "(\<lambda>label. os_path_join ?d [sample_file ?base label]) =
        (\<lambda>label. (if ?d = [] \<or> last ?d = CHR ''/'' then ?d else ?d @ ''/'') @
                   ?base @ ''_'' @ label @ ''.png'')"
  proof
    fix label
    from base_no_slash [of p label]
    have "os_path_join ?d [sample_file ?base label] =
            (if ?d = [] \<or> last ?d = CHR ''/'' then ?d @ sample_file ?base label
             else ?d @ ''/'' @ sample_file ?base label)"
      by (simp add: join_one)
    then show "os_path_join ?d [sample_file ?base label] =
        (if ?d = [] \<or> last ?d = CHR ''/'' then ?d else ?d @ ''/'') @
                   ?base @ ''_'' @ label @ ''.png''"
      by (simp add: sample_file_def)
  qed
  then have "snd (save_images u (Some wp) visuals (PathList (p # ps)) aspect_ratio width use_wandb w) =
         first_error (item_result u (\<lambda>label. (if ?d = [] \<or> last ?d = CHR ''/'' then ?d
              else ?d @ ''/'') @ ?base @ ''_'' @ label @ ''.png'')) visuals \<and>
       files (snd (fst (save_images u (Some wp) visuals (PathList (p # ps)) aspect_ratio width
                          use_wandb w))) =
         written (item_result u (\<lambda>label. (if ?d = [] \<or> last ?d = CHR ''/'' then ?d
              else ?d @ ''/'') @ ?base @ ''_'' @ label @ ''.png''))
           (good_prefix (item_result u (\<lambda>label. (if ?d = [] \<or> last ?d = CHR ''/'' then ?d
              else ?d @ ''/'') @ ?base @ ''_'' @ label @ ''.png'')) visuals) (files w)"
    by (simp add: save_images_eq Let_def)
  moreover have "\<exists>front. p = fst (splitdrive p) @ front @ ?base @ snd (splitext (basename p)) \<and>
      (front = [] \<or> is_sep (last front))"
  proof -
    obtain front where "snd (splitdrive p) = front @ basename p"
      "front = [] \<or> is_sep (last front)"
      using basename_front [of p] by blast
    then have "p = fst (splitdrive p) @ front @ ?base @ snd (splitext (basename p))"
      using splitdrive_append [of p] by (simp only: splitext_append)
    then show ?thesis using \<open>front = [] \<or> is_sep (last front)\<close> by blast
  qed
  moreover have "filter is_sep (?base @ snd (splitext (basename p))) = []"
    by (simp only: splitext_append basename_no_sep)
  moreover note splitext_pinned [OF basename_no_slash [of p]]
  ultimately show ?thesis by (simp add: Let_def)
qed

lemma example_ext: "snd (splitext (basename ''dir/abc.png'')) = ''.png''"
  by code_simp

lemma example_drive: "fst (splitdrive ''dir/abc.png'') = []"
  by code_simp

theorem save_images_writes_base_label_files_witness:
  "snd (save_images env0 (Some wp0) [(''real'', ''pixels'')] (PathList [''dir/abc.png''])
      (Fin False 1) 512 False w0) = None \<and>
   files (snd (fst (save_images env0 (Some wp0) [(''real'', ''pixels'')] (PathList [''dir/abc.png''])
      (Fin False 1) 512 False w0))) = [''web/images/abc_real.png'' \<mapsto> ''RGB:pixels''] \<and>
   (\<exists>front. ''dir/abc.png'' = front @ ''abc'' @ ''.png'' \<and> (front = [] \<or> is_sep (last front)))"
  using save_images_writes_base_label_files [where u = env0 and wp = wp0
      and visuals = "[(''real'', ''pixels'')]" and p = "''dir/abc.png''" and ps = "[]"
      and aspect_ratio = "Fin False 1" and width = 512 and use_wandb = False and w = w0]
  by (simp add: Let_def example_base example_ext example_drive item_result_def env0_def w0_def
      wp0_def)

end
